theory Spec2Isabelle
  imports Complex_Main "HOL-Library.Word"
begin

unbundle bit_operations_syntax

section \<open>Values and commands\<close>

text \<open>
  JavaScript numbers as they reach the command handlers. Finite values are kept as exact
  rationals; the three non-finite values are separate constructors. An absent field
  (\<^verbatim>\<open>undefined\<close>) is \<open>None\<close> in the command record.
\<close>

datatype jsnumber = Num rat | NaN | PosInfinity | NegInfinity

text \<open>\<^verbatim>\<open>ToBoolean\<close> on an optional number: absent, \<open>0\<close> and \<open>NaN\<close> are falsy.\<close>

fun truthy :: "jsnumber option \<Rightarrow> bool" where
  "truthy None = False"
| "truthy (Some (Num r)) = (r \<noteq> 0)"
| "truthy (Some NaN) = False"
| "truthy (Some PosInfinity) = True"
| "truthy (Some NegInfinity) = True"

text \<open>\<^verbatim>\<open>x >= k\<close> and \<^verbatim>\<open>x <= k\<close> against a finite constant; every comparison with
  \<^verbatim>\<open>undefined\<close> or \<open>NaN\<close> is false.\<close>

fun js_ge :: "jsnumber option \<Rightarrow> rat \<Rightarrow> bool" where
  "js_ge (Some (Num r)) k = (r \<ge> k)"
| "js_ge (Some PosInfinity) k = True"
| "js_ge _ k = False"

fun js_le :: "jsnumber option \<Rightarrow> rat \<Rightarrow> bool" where
  "js_le (Some (Num r)) k = (r \<le> k)"
| "js_le (Some NegInfinity) k = True"
| "js_le _ k = False"

text \<open>\<^verbatim>\<open>x / 100\<close> on a number. The quotient of a finite value is the exact one; the
  code's is that quotient rounded to a double.\<close>

fun js_div100 :: "jsnumber \<Rightarrow> jsnumber" where
  "js_div100 (Num r) = Num (r / 100)"
| "js_div100 n = n"

record command =
  type :: string
  app :: "string option"
  volume :: "jsnumber option"
  time :: "jsnumber option"

text \<open>The two kinds of exception the handlers raise: \<^verbatim>\<open>new Error(message)\<close> and the
  \<^verbatim>\<open>TypeError\<close> of a property read on \<^verbatim>\<open>null\<close>; \<open>Rejected\<close> is an opaque failure
  handed back by the transport.\<close>

datatype error = Error string | TypeError | Rejected

section \<open>Media command handler of the sender\<close>

record media_status =
  supportedMediaCommands :: int

datatype media_op = PauseOp | PlayOp | SeekOp jsnumber | StopOp

text \<open>How the promise returned by \<^verbatim>\<open>sendMediaCommandAsync\<close> settles when it is
  fulfilled: with the status itself, with the result of a receiver operation, or with
  \<^verbatim>\<open>undefined\<close> after no operation.\<close>

datatype media_result = StatusOnly "media_status option" | Invoked media_op | Nothing

text \<open>\<^verbatim>\<open>status.supportedMediaCommands & k\<close>, truthy iff the 32-bit conjunction is non-zero.\<close>

definition bit_set :: "media_status \<Rightarrow> int \<Rightarrow> bool" where
  "bit_set status k \<longleftrightarrow>
     (word_of_int (supportedMediaCommands status) :: 32 word) AND word_of_int k \<noteq> 0"

text \<open>The continuation run on the status fetched first (every type but \<^verbatim>\<open>GET_STATUS\<close>).\<close>

definition mediaThen :: "command \<Rightarrow> media_status option \<Rightarrow> error + media_result" where
  "mediaThen command status =
     (case status of
        None \<Rightarrow> Inl (Error ''not playing'')
      | Some st \<Rightarrow>
          if type command = ''PAUSE'' then
            (if bit_set st 1 then Inr (Invoked PauseOp) else Inr Nothing)
          else if type command = ''PLAY'' then Inr (Invoked PlayOp)
          else if type command = ''SEEK'' then
            (if truthy (time command) \<and> bit_set st 2
             then Inr (Invoked (SeekOp (the (time command)))) else Inr Nothing)
          else if type command = ''STOP'' then Inr (Invoked StopOp)
          else Inl (Error ''Malformed media control command''))"

text \<open>\<^verbatim>\<open>sendMediaCommandAsync\<close>; \<open>fetched\<close> is how the receiver's
  \<^verbatim>\<open>getStatusAsync()\<close> settles.\<close>

definition sendMediaCommandAsync ::
  "command \<Rightarrow> error + media_status option \<Rightarrow> error + media_result" where
  "sendMediaCommandAsync command fetched =
     (if type command = ''GET_STATUS'' then
        (case fetched of Inl e \<Rightarrow> Inl e | Inr status \<Rightarrow> Inr (StatusOnly status))
      else
        (case fetched of Inl e \<Rightarrow> Inl e | Inr status \<Rightarrow> mediaThen command status))"

section \<open>Transport calls\<close>

type_synonym node_id = string

record castV2App =
  APP_ID :: string

record session =
  appId :: string
  sessionId :: string

text \<open>A device status; \<open>applications\<close> may be missing from it.\<close>

record platform_status =
  applications :: "session list option"

datatype volume_spec = Muted bool | Level jsnumber

text \<open>The methods of the transport client that the module calls. Receivers and clients
  are handles (numbers); an application descriptor may be \<^verbatim>\<open>null\<close>.\<close>

datatype tcall =
    Connect
  | Close
  | GetStatus
  | GetVolume
  | SetVolume volume_spec
  | Stop nat
  | Launch "castV2App option"
  | Join session castV2App

text \<open>The promise a manager operation returns: the call made at once on a client, and
  whether \<^verbatim>\<open>.then(volume => node.client.getStatusAsync())\<close> is chained to it.\<close>

record promise =
  on_client :: nat
  call :: tcall
  then_getStatus :: bool

record node_status =
  fill :: string
  shape :: string
  status_text :: string

datatype effect =
    ENewClient nat
  | ECall nat tcall
  | ENodeStatus node_id node_status
  | ENodeSend node_id "platform_status option"
  | ENodeJoin node_id promise
  | EListen node_id nat
  | ESetTimeout nat
  | EDone

section \<open>State of the connection node and of its senders\<close>

text \<open>The two adapter modules a sender chooses from.\<close>

datatype adapter = DefaultMediaReceiverAdapter | YouTubeReceiverAdapter

text \<open>What the connection node touches of a sender: its capabilities and the two fields
  that say whether a session is attached.\<close>

record sender =
  supportedApplications :: "castV2App list"
  receiver :: "nat option"
  adapter :: "adapter option"

text \<open>
  The fields of \<^verbatim>\<open>CastV2ConnectionNode\<close>, followed by what lies outside it: the sender
  objects the registry refers to (\<open>nodes\<close>), the timers pending in the runtime, the
  supply of fresh handles, whether \<^verbatim>\<open>close()\<close> of a client raises, and the log of
  everything the node did to the outside. \<open>registeredNodes\<close> holds the keys of the
  registry in insertion order, which is the order \<^verbatim>\<open>for ... in\<close> visits them.
\<close>

record connection =
  connected :: bool
  connecting :: bool
  closing :: bool
  registeredNodes :: "node_id list"
  platformStatus :: "platform_status option"
  client :: "nat option"
  reconnectTimeOut :: "nat option"
  nodes :: "node_id \<Rightarrow> sender"
  timers :: "nat list"
  nextTimer :: nat
  nextClient :: nat
  closeThrows :: "nat \<Rightarrow> bool"
  effects :: "effect list"

text \<open>A call that may raise after it has changed the state.\<close>

datatype outcome = Returned connection | Threw error connection

definition emit :: "effect \<Rightarrow> connection \<Rightarrow> connection" where
  "emit e s = s\<lparr>effects := effects s @ [e]\<rparr>"

definition platformCommands :: "string list" where
  "platformCommands = [''CLOSE'', ''GET_VOLUME'', ''GET_CAST_STATUS'', ''MUTE'', ''UNMUTE'', ''VOLUME'']"

definition mediaCommands :: "string list" where
  "mediaCommands = [''GET_STATUS'', ''PAUSE'', ''PLAY'', ''SEEK'', ''STOP'']"

definition disconnected_status :: node_status where
  "disconnected_status = \<lparr>fill = ''red'', shape = ''ring'', status_text = ''disconnected''\<rparr>"

definition connecting_status :: node_status where
  "connecting_status = \<lparr>fill = ''yellow'', shape = ''ring'', status_text = ''connecting''\<rparr>"

definition connected_status :: node_status where
  "connected_status = \<lparr>fill = ''green'', shape = ''ring'', status_text = ''connected''\<rparr>"

definition joined_status :: node_status where
  "joined_status = \<lparr>fill = ''green'', shape = ''dot'', status_text = ''joined''\<rparr>"

section \<open>Operations of the connection node\<close>

definition launchAsync :: "connection \<Rightarrow> castV2App option \<Rightarrow> error + promise" where
  "launchAsync s castV2App =
     (if \<not> connected s then Inl (Error ''Not connected'')
      else case client s of
             None \<Rightarrow> Inl TypeError
           | Some c \<Rightarrow> Inr \<lparr>on_client = c, call = Launch castV2App, then_getStatus = False\<rparr>)"

definition joinSessionAsync :: "connection \<Rightarrow> session \<Rightarrow> castV2App \<Rightarrow> error + promise" where
  "joinSessionAsync s activeSession castV2App =
     (if \<not> connected s then Inl (Error ''Not connected'')
      else case client s of
             None \<Rightarrow> Inl TypeError
           | Some c \<Rightarrow>
               Inr \<lparr>on_client = c, call = Join activeSession castV2App, then_getStatus = False\<rparr>)"

text \<open>A method call on \<^verbatim>\<open>node.client\<close>.\<close>

definition on_node_client :: "connection \<Rightarrow> tcall \<Rightarrow> bool \<Rightarrow> error + promise" where
  "on_node_client s m chained =
     (case client s of
        None \<Rightarrow> Inl TypeError
      | Some c \<Rightarrow> Inr \<lparr>on_client = c, call = m, then_getStatus = chained\<rparr>)"

definition sendPlatformCommandAsync ::
  "connection \<Rightarrow> command \<Rightarrow> nat option \<Rightarrow> error + promise" where
  "sendPlatformCommandAsync s command rcv =
     (if \<not> connected s then Inl (Error ''Not connected'')
      else if type command = ''CLOSE'' then
        (case rcv of
           Some r \<Rightarrow> on_node_client s (Stop r) False
         | None \<Rightarrow> on_node_client s GetStatus False)
      else if type command = ''GET_VOLUME'' then on_node_client s GetVolume True
      else if type command = ''GET_CAST_STATUS'' then on_node_client s GetStatus False
      else if type command = ''MUTE'' then on_node_client s (SetVolume (Muted True)) True
      else if type command = ''UNMUTE'' then on_node_client s (SetVolume (Muted False)) True
      else if type command = ''VOLUME'' then
        (if truthy (volume command) \<and> js_ge (volume command) 0 \<and> js_le (volume command) 100
         then on_node_client s (SetVolume (Level (js_div100 (the (volume command))))) True
         else Inl (Error ''Malformed command''))
      else Inl (Error ''Malformed command''))"

text \<open>The chained continuation \<^verbatim>\<open>volume => node.client.getStatusAsync()\<close>, run in the
  state the node has when the first call is answered.\<close>

definition platformThen :: "connection \<Rightarrow> error + promise" where
  "platformThen s = on_node_client s GetStatus False"

definition setStatusOfRegisteredNodes :: "node_status \<Rightarrow> connection \<Rightarrow> connection" where
  "setStatusOfRegisteredNodes status s =
     fold (\<lambda>nid. emit (ENodeStatus nid status)) (registeredNodes s) s"

definition sendToRegisteredNodes :: "platform_status option \<Rightarrow> connection \<Rightarrow> connection" where
  "sendToRegisteredNodes msg s =
     fold (\<lambda>nid. emit (ENodeSend nid msg)) (registeredNodes s) s"

text \<open>\<^verbatim>\<open>unjoin\<close> and \<^verbatim>\<open>join\<close> of the sender \<open>nid\<close>. \<open>join\<close> is the part that
  runs at once: the request to the connection node, which leaves a promise pending. Its
  continuation, run when the transport answers with a receiver, is \<open>joinThen\<close> below.\<close>

definition unjoin :: "node_id \<Rightarrow> connection \<Rightarrow> connection" where
  "unjoin nid s =
     emit (ENodeStatus nid connected_status)
       (s\<lparr>nodes := (nodes s)(nid := (nodes s nid)\<lparr>receiver := None, adapter := None\<rparr>)\<rparr>)"

definition join :: "node_id \<Rightarrow> session \<Rightarrow> castV2App \<Rightarrow> connection \<Rightarrow> outcome" where
  "join nid activeSession castV2App s =
     (case joinSessionAsync s activeSession castV2App of
        Inl e \<Rightarrow> Threw e s
      | Inr p \<Rightarrow> Returned (emit (ENodeJoin nid p) s))"

text \<open>
  \<^verbatim>\<open>getAdapter\<close> and \<^verbatim>\<open>initReceiver\<close> of the sender \<open>nid\<close>. The two application
  classes the module imports are parameters, and so is what \<^verbatim>\<open>initReceiver\<close> of an
  adapter module returns for a receiver (\<open>adapterInit\<close>); the listeners for the
  receiver's \<^verbatim>\<open>status\<close> and \<^verbatim>\<open>close\<close> events are recorded as \<open>EListen\<close>. A
  \<^verbatim>\<open>null\<close> application raises in \<^verbatim>\<open>getAdapter\<close>; an application with no adapter
  raises after \<^verbatim>\<open>node.adapter\<close> was set to \<^verbatim>\<open>null\<close>.
\<close>

definition getAdapter :: "castV2App \<Rightarrow> castV2App \<Rightarrow> castV2App \<Rightarrow> adapter option" where
  "getAdapter DefaultMediaReceiver YouTubeReceiver castV2App =
     (if APP_ID castV2App = APP_ID DefaultMediaReceiver then Some DefaultMediaReceiverAdapter
      else if APP_ID castV2App = APP_ID YouTubeReceiver then Some YouTubeReceiverAdapter
      else None)"

definition initReceiver ::
  "castV2App \<Rightarrow> castV2App \<Rightarrow> (adapter \<Rightarrow> nat \<Rightarrow> nat) \<Rightarrow>
   node_id \<Rightarrow> nat \<Rightarrow> castV2App option \<Rightarrow> connection \<Rightarrow> outcome" where
  "initReceiver DefaultMediaReceiver YouTubeReceiver adapterInit nid rcv castV2App s =
     (case castV2App of
        None \<Rightarrow> Threw TypeError s
      | Some a \<Rightarrow>
          (case getAdapter DefaultMediaReceiver YouTubeReceiver a of
             None \<Rightarrow>
               Threw TypeError
                 (s\<lparr>nodes := (nodes s)(nid := (nodes s nid)\<lparr>adapter := None\<rparr>)\<rparr>)
           | Some ad \<Rightarrow>
               Returned
                 (emit (ENodeStatus nid joined_status)
                    (emit (EListen nid (adapterInit ad rcv))
                       (s\<lparr>nodes := (nodes s)(nid := (nodes s nid)
                            \<lparr>adapter := Some ad, receiver := Some (adapterInit ad rcv)\<rparr>)\<rparr>)))))"

text \<open>The continuation of \<^verbatim>\<open>join\<close>, on the receiver \<open>rcv\<close> the transport answered with.\<close>

definition joinThen ::
  "castV2App \<Rightarrow> castV2App \<Rightarrow> (adapter \<Rightarrow> nat \<Rightarrow> nat) \<Rightarrow>
   node_id \<Rightarrow> nat \<Rightarrow> castV2App \<Rightarrow> connection \<Rightarrow> outcome" where
  "joinThen DefaultMediaReceiver YouTubeReceiver adapterInit nid rcv castV2App s =
     initReceiver DefaultMediaReceiver YouTubeReceiver adapterInit nid rcv (Some castV2App) s"

text \<open>The listener \<^verbatim>\<open>initReceiver\<close> registers for the \<^verbatim>\<open>close\<close> event of a receiver.\<close>

definition onReceiverClose :: "node_id \<Rightarrow> connection \<Rightarrow> connection" where
  "onReceiverClose nid s =
     emit (ENodeStatus nid connected_status)
       (s\<lparr>nodes := (nodes s)(nid := (nodes s nid)\<lparr>adapter := None, receiver := None\<rparr>)\<rparr>)"

text \<open>The two searches of \<^verbatim>\<open>joinNodes\<close> for one sender.\<close>

definition findActiveSession :: "platform_status \<Rightarrow> sender \<Rightarrow> session option" where
  "findActiveSession status n =
     (case applications status of
        None \<Rightarrow> None
      | Some apps \<Rightarrow>
          find (\<lambda>session. list_ex (\<lambda>supportedApp. APP_ID supportedApp = appId session)
                                   (supportedApplications n)) apps)"

definition findCastV2App :: "session \<Rightarrow> sender \<Rightarrow> castV2App option" where
  "findCastV2App activeSession n =
     find (\<lambda>supportedApp. APP_ID supportedApp = appId activeSession) (supportedApplications n)"

definition joinNode :: "platform_status \<Rightarrow> node_id \<Rightarrow> connection \<Rightarrow> outcome" where
  "joinNode status nid s =
     (case findActiveSession status (nodes s nid) of
        None \<Rightarrow> Returned (unjoin nid s)
      | Some activeSession \<Rightarrow>
          (case findCastV2App activeSession (nodes s nid) of
             None \<Rightarrow> Returned (unjoin nid s)
           | Some castV2App \<Rightarrow> join nid activeSession castV2App s))"

fun joinLoop :: "platform_status \<Rightarrow> node_id list \<Rightarrow> connection \<Rightarrow> outcome" where
  "joinLoop status [] s = Returned s"
| "joinLoop status (nid # ids) s =
     (case joinNode status nid s of
        Threw e s' \<Rightarrow> Threw e s'
      | Returned s' \<Rightarrow> joinLoop status ids s')"

definition joinNodes :: "connection \<Rightarrow> outcome" where
  "joinNodes s =
     (if \<not> connected s then Threw (Error ''Not connected'') s
      else case platformStatus s of
             None \<Rightarrow> Threw (Error ''Not connected'') s
           | Some status \<Rightarrow> joinLoop status (registeredNodes s) s)"

text \<open>\<^verbatim>\<open>node.client.close()\<close>: a \<^verbatim>\<open>TypeError\<close> when there is no client, and otherwise the
  call, which may itself raise.\<close>

definition closeClient :: "connection \<Rightarrow> outcome" where
  "closeClient s =
     (case client s of
        None \<Rightarrow> Threw TypeError s
      | Some c \<Rightarrow>
          if closeThrows s c then Threw Rejected (emit (ECall c Close) s)
          else Returned (emit (ECall c Close) s))"

definition disconnect :: "connection \<Rightarrow> connection" where
  "disconnect s =
     (let s1 = (if connected s \<or> connecting s
                then (case closeClient s of Returned s' \<Rightarrow> s' | Threw e s' \<Rightarrow> s')
                else s);
          s2 = s1\<lparr>client := None, platformStatus := None,
                  connected := False, connecting := False\<rparr>;
          s3 = fold unjoin (registeredNodes s2) s2
      in setStatusOfRegisteredNodes disconnected_status s3)"

definition clearTimeout :: "nat option \<Rightarrow> connection \<Rightarrow> connection" where
  "clearTimeout h s =
     (case h of None \<Rightarrow> s | Some t \<Rightarrow> s\<lparr>timers := removeAll t (timers s)\<rparr>)"

definition setTimeout :: "connection \<Rightarrow> connection" where
  "setTimeout s =
     emit (ESetTimeout (nextTimer s))
       (s\<lparr>timers := timers s @ [nextTimer s],
          reconnectTimeOut := Some (nextTimer s),
          nextTimer := Suc (nextTimer s)\<rparr>)"

definition reconnect :: "connection \<Rightarrow> connection" where
  "reconnect s =
     (let s1 = s\<lparr>connected := False, connecting := False\<rparr>
      in if \<not> closing s1 \<and> length (registeredNodes s1) > 0
         then setTimeout (clearTimeout (reconnectTimeOut s1) s1)
         else s1)"

text \<open>\<^verbatim>\<open>connect\<close>, up to the call of \<^verbatim>\<open>connectAsync\<close>; the three continuations chained
  to that call follow as \<open>connectThen\<close>, \<open>statusThen\<close> and \<open>connectCatch\<close>. The
  constructor of the client and the registration of its listeners are taken not to
  raise, so the \<^verbatim>\<open>try\<close> block always reaches the call.\<close>

definition connect :: "connection \<Rightarrow> connection" where
  "connect s =
     (if \<not> connected s \<and> \<not> connecting s then
        (let c = nextClient s;
             s1 = s\<lparr>reconnectTimeOut := None, connecting := True\<rparr>;
             s2 = emit (ENewClient c) (s1\<lparr>client := Some c, nextClient := Suc c\<rparr>);
             s3 = setStatusOfRegisteredNodes connecting_status s2
         in emit (ECall c Connect) s3)
      else s)"

definition connectThen :: "connection \<Rightarrow> outcome" where
  "connectThen s =
     (let s1 = s\<lparr>connected := True, connecting := False\<rparr>;
          s2 = setStatusOfRegisteredNodes connected_status s1
      in case client s2 of
           None \<Rightarrow> Threw TypeError s2
         | Some c \<Rightarrow> Returned (emit (ECall c GetStatus) s2))"

definition statusThen :: "platform_status option \<Rightarrow> connection \<Rightarrow> outcome" where
  "statusThen status s =
     (case joinNodes (s\<lparr>platformStatus := status\<rparr>) of
        Threw e s' \<Rightarrow> Threw e s'
      | Returned s' \<Rightarrow> Returned (sendToRegisteredNodes status s'))"

definition connectCatch :: "connection \<Rightarrow> connection" where
  "connectCatch s = reconnect (disconnect s)"

definition register :: "node_id \<Rightarrow> connection \<Rightarrow> connection" where
  "register nid s =
     (let s1 = s\<lparr>registeredNodes :=
                  (if nid \<in> set (registeredNodes s) then registeredNodes s
                   else registeredNodes s @ [nid])\<rparr>
      in if length (registeredNodes s1) = 1 then connect s1 else s1)"

definition deregister ::
  "node_id \<Rightarrow> (connection \<Rightarrow> connection) \<Rightarrow> connection \<Rightarrow> connection" where
  "deregister nid done s =
     (let s1 = s\<lparr>registeredNodes := removeAll nid (registeredNodes s)\<rparr>
      in if closing s1 then done s1
         else done (if length (registeredNodes s1) = 0
                    then (if connected s1 \<or> connecting s1 then disconnect s1 else s1)
                    else s1))"

text \<open>The \<^verbatim>\<open>close\<close> handler of the connection node.\<close>

definition onClose :: "(connection \<Rightarrow> connection) \<Rightarrow> connection \<Rightarrow> connection" where
  "onClose done s = done (disconnect (s\<lparr>closing := True\<rparr>))"

text \<open>The callback a sender passes to \<^verbatim>\<open>deregister\<close> from its own \<^verbatim>\<open>close\<close> handler.\<close>

definition senderDone :: "node_id \<Rightarrow> connection \<Rightarrow> connection" where
  "senderDone nid s =
     emit EDone (s\<lparr>nodes := (nodes s)(nid := (nodes s nid)\<lparr>adapter := None, receiver := None\<rparr>)\<rparr>)"

section \<open>Events\<close>

text \<open>
  Everything that enters the connection node: the calls of its senders and of its owner,
  the settling of the promises of \<^verbatim>\<open>connect\<close>, the events of the transport client, and
  the reconnect timer. Each handler runs to its end; a rejection raised inside a
  continuation of \<^verbatim>\<open>connect\<close> is taken to its \<^verbatim>\<open>catch\<close> in the same step.
\<close>

datatype event =
    Register node_id
  | Deregister node_id
  | OwnerClose
  | ConnectResolved
  | ConnectRejected
  | StatusResolved "platform_status option"
  | StatusRejected
  | ClientError
  | ClientClosed
  | ClientStatus "platform_status option"
  | TimerFire nat

definition onClientStatus :: "platform_status option \<Rightarrow> connection \<Rightarrow> connection" where
  "onClientStatus status s =
     (case joinNodes (s\<lparr>platformStatus := status\<rparr>) of
        Threw e s' \<Rightarrow> s'
      | Returned s' \<Rightarrow> sendToRegisteredNodes status s')"

fun step :: "event \<Rightarrow> connection \<Rightarrow> connection" where
  "step (Register nid) s = register nid s"
| "step (Deregister nid) s = deregister nid (senderDone nid) s"
| "step OwnerClose s = onClose (emit EDone) s"
| "step ConnectResolved s =
     (case connectThen s of Threw e s' \<Rightarrow> connectCatch s' | Returned s' \<Rightarrow> s')"
| "step ConnectRejected s = connectCatch s"
| "step (StatusResolved status) s =
     (case statusThen status s of Threw e s' \<Rightarrow> connectCatch s' | Returned s' \<Rightarrow> s')"
| "step StatusRejected s = connectCatch s"
| "step ClientError s = reconnect (disconnect s)"
| "step ClientClosed s = reconnect (disconnect s)"
| "step (ClientStatus status) s = onClientStatus status s"
| "step (TimerFire t) s =
     (if t \<in> set (timers s) then connect (s\<lparr>timers := removeAll t (timers s)\<rparr>) else s)"

definition run :: "event list \<Rightarrow> connection \<Rightarrow> connection" where
  "run evs s = fold step evs s"

text \<open>The connection node as its constructor leaves it, with the senders \<open>ns\<close> around it.\<close>

definition init :: "(node_id \<Rightarrow> sender) \<Rightarrow> (nat \<Rightarrow> bool) \<Rightarrow> connection" where
  "init ns ct =
     \<lparr>connected = False, connecting = False, closing = False, registeredNodes = [],
      platformStatus = None, client = None, reconnectTimeOut = None, nodes = ns,
      timers = [], nextTimer = 0, nextClient = 0, closeThrows = ct, effects = []\<rparr>"

section \<open>Command dispatch of the sender\<close>

definition getCommandApp :: "castV2App \<Rightarrow> castV2App \<Rightarrow> command \<Rightarrow> castV2App option" where
  "getCommandApp DefaultMediaReceiver YouTubeReceiver command =
     (if app command = Some ''DefaultMediaReceiver'' then Some DefaultMediaReceiver
      else if app command = Some ''YouTube'' then Some YouTubeReceiver
      else None)"

text \<open>Where \<^verbatim>\<open>sendCommandAsync\<close> takes a command: to the connection node, to a launch
  whose continuation attaches and dispatches again, to the media handler, or to the
  adapter of the attached session.\<close>

datatype dispatch =
    Platform promise
  | LaunchThenRetry promise
  | Media command
  | AppCommand adapter nat command

definition sendCommandAsync ::
  "castV2App \<Rightarrow> castV2App \<Rightarrow> connection \<Rightarrow> node_id \<Rightarrow> command \<Rightarrow> error + dispatch" where
  "sendCommandAsync DefaultMediaReceiver YouTubeReceiver s nid command =
     (if type command \<in> set platformCommands then
        map_sum (\<lambda>e. e) Platform (sendPlatformCommandAsync s command (receiver (nodes s nid)))
      else
        (case (receiver (nodes s nid), adapter (nodes s nid)) of
           (Some r, Some a) \<Rightarrow>
             if type command \<in> set mediaCommands then Inr (Media command)
             else Inr (AppCommand a r command)
         | _ \<Rightarrow>
             map_sum (\<lambda>e. e) LaunchThenRetry
               (launchAsync s (getCommandApp DefaultMediaReceiver YouTubeReceiver command))))"

section \<open>Notions used to state the properties\<close>

text \<open>The state an operation leaves behind, whether it returned or raised.\<close>

fun final :: "outcome \<Rightarrow> connection" where
  "final (Returned s) = s"
| "final (Threw e s) = s"

text \<open>A sender with no session attached.\<close>

definition detached :: "sender \<Rightarrow> sender" where
  "detached n = n\<lparr>receiver := None, adapter := None\<rparr>"

text \<open>
  The join protocol in the words of the specification: of all pairs of an active session
  and a supported capability with the same application identifier, sessions in the order
  of the status and capabilities in the order of the sender, the first one; none if there
  is no such pair.
\<close>

definition joinSpec :: "platform_status \<Rightarrow> sender \<Rightarrow> (session \<times> castV2App) option" where
  "joinSpec status n =
     (case applications status of
        None \<Rightarrow> None
      | Some apps \<Rightarrow>
          (case concat (map (\<lambda>session.
                   map (Pair session)
                     (filter (\<lambda>capability. APP_ID capability = appId session)
                        (supportedApplications n))) apps) of
             [] \<Rightarrow> None
           | p # _ \<Rightarrow> Some p))"

text \<open>What the protocol tells the sender \<open>nid\<close>: join through the client \<open>c\<close>, or
  unjoin, which shows as the sender's "connected" indicator.\<close>

definition instruction :: "nat \<Rightarrow> platform_status \<Rightarrow> connection \<Rightarrow> node_id \<Rightarrow> effect" where
  "instruction c status s nid =
     (case joinSpec status (nodes s nid) of
        None \<Rightarrow> ENodeStatus nid connected_status
      | Some (activeSession, castV2App) \<Rightarrow>
          ENodeJoin nid \<lparr>on_client = c, call = Join activeSession castV2App,
                          then_getStatus = False\<rparr>)"






text \<open>
  A node that has left the connection, seen from the state \<open>s\<close> it left: neither flag
  set, no client and no device status, every registered sender detached and told so
  (the "connected" indicator of \<^verbatim>\<open>unjoin\<close>) and sent the "disconnected" status, and the
  client \<open>s\<close> held closed exactly once.
\<close>

definition torn_down :: "connection \<Rightarrow> connection \<Rightarrow> bool" where
  "torn_down s s' \<longleftrightarrow>
     \<not> connected s' \<and> \<not> connecting s' \<and> client s' = None \<and> platformStatus s' = None
     \<and> list_all (\<lambda>nid. receiver (nodes s' nid) = None \<and> adapter (nodes s' nid) = None
                    \<and> ENodeStatus nid connected_status \<in> set (effects s')
                    \<and> ENodeStatus nid disconnected_status \<in> set (effects s'))
           (registeredNodes s')
     \<and> (case client s of
          None \<Rightarrow> True
        | Some c \<Rightarrow> count_list (effects s') (ECall c Close) = 1)"

text \<open>
  One round of the join protocol with its joins answered: \<^verbatim>\<open>joinNodes\<close> runs, and then
  the promise of every join it issued is fulfilled, for the sender \<open>nid\<close> with the
  receiver \<open>rcv nid\<close>, which runs the continuation \<open>joinThen\<close>.
\<close>

fun issued :: "effect \<Rightarrow> (node_id \<times> castV2App) list" where
  "issued (ENodeJoin nid p) =
     (case call p of Join activeSession castV2App \<Rightarrow> [(nid, castV2App)] | _ \<Rightarrow> [])"
| "issued _ = []"

definition fulfilJoins ::
  "castV2App \<Rightarrow> castV2App \<Rightarrow> (adapter \<Rightarrow> nat \<Rightarrow> nat) \<Rightarrow> (node_id \<Rightarrow> nat) \<Rightarrow>
   (node_id \<times> castV2App) list \<Rightarrow> connection \<Rightarrow> connection" where
  "fulfilJoins DefaultMediaReceiver YouTubeReceiver adapterInit rcv js s =
     fold (\<lambda>(nid, castV2App) t.
             final (joinThen DefaultMediaReceiver YouTubeReceiver adapterInit nid (rcv nid) castV2App t))
          js s"

definition joinRound ::
  "castV2App \<Rightarrow> castV2App \<Rightarrow> (adapter \<Rightarrow> nat \<Rightarrow> nat) \<Rightarrow> (node_id \<Rightarrow> nat) \<Rightarrow>
   connection \<Rightarrow> connection" where
  "joinRound DefaultMediaReceiver YouTubeReceiver adapterInit rcv s =
     (let s' = final (joinNodes s)
      in fulfilJoins DefaultMediaReceiver YouTubeReceiver adapterInit rcv
           (concat (map issued (drop (length (effects s)) (effects s')))) s')"

section \<open>An example configuration\<close>

text \<open>A sender that supports two applications, a device status with three sessions, and
  the state after the first sender registered, the connection was made and the first
  status arrived.\<close>

definition demo_sender :: sender where
  "demo_sender = \<lparr>supportedApplications = [\<lparr>APP_ID = ''CC1AD845''\<rparr>, \<lparr>APP_ID = ''233637DE''\<rparr>],
                   receiver = None, adapter = None\<rparr>"

definition demo_status :: platform_status where
  "demo_status = \<lparr>applications = Some [\<lparr>appId = ''E8C28D3C'', sessionId = ''s0''\<rparr>,
                                         \<lparr>appId = ''233637DE'', sessionId = ''s1''\<rparr>,
                                         \<lparr>appId = ''CC1AD845'', sessionId = ''s2''\<rparr>]\<rparr>"

definition demo_init :: connection where
  "demo_init = init (\<lambda>_. demo_sender) (\<lambda>_. False)"

definition demo_state :: connection where
  "demo_state = run [Register ''a'', ConnectResolved, StatusResolved (Some demo_status)] demo_init"

section \<open>Facts about values\<close>

lemma truthy_iff: "truthy v \<longleftrightarrow> v \<noteq> None \<and> v \<noteq> Some (Num 0) \<and> v \<noteq> Some NaN"
  by (cases v rule: truthy.cases) auto

lemma bit_set_1: "bit_set st 1 \<longleftrightarrow> odd (supportedMediaCommands st)"
proof -
  have "bit_set st 1 \<longleftrightarrow> bit (word_of_int (supportedMediaCommands st) :: 32 word) 0"
    unfolding bit_set_def using and_exp_eq_0_iff_not_bit [of "word_of_int (supportedMediaCommands st) :: 32 word" 0]
    by simp
  also have "\<dots> \<longleftrightarrow> bit (supportedMediaCommands st) 0"
    by (simp only: bit_word_of_int_iff) simp
  finally show ?thesis by (simp add: bit_0)
qed

lemma bit_set_2: "bit_set st 2 \<longleftrightarrow> odd (supportedMediaCommands st div 2)"
proof -
  have "bit_set st 2 \<longleftrightarrow> bit (word_of_int (supportedMediaCommands st) :: 32 word) 1"
    unfolding bit_set_def using and_exp_eq_0_iff_not_bit [of "word_of_int (supportedMediaCommands st) :: 32 word" 1]
    by simp
  also have "\<dots> \<longleftrightarrow> bit (supportedMediaCommands st) 1"
    by (simp only: bit_word_of_int_iff) simp
  finally show ?thesis by (simp add: bit_iff_odd)
qed

section \<open>Volume command of the connection node\<close>

lemma volume_accepted_iff:
  "sendPlatformCommandAsync (s\<lparr>connected := True, client := Some c\<rparr>)
     (command\<lparr>type := ''VOLUME''\<rparr>) r =
     (case volume command of
        Some (Num v) \<Rightarrow>
          if 0 < v \<and> v \<le> 100
          then Inr \<lparr>on_client = c, call = SetVolume (Level (Num (v / 100))),
                    then_getStatus = True\<rparr>
          else Inl (Error ''Malformed command'')
      | _ \<Rightarrow> Inl (Error ''Malformed command''))"
  by (cases "volume command" rule: truthy.cases)
     (auto simp: sendPlatformCommandAsync_def on_node_client_def)

text \<open>
  C1. A \<^verbatim>\<open>VOLUME\<close> command is meant to succeed for every volume in \<open>[0,100]\<close>. On a
  connected node a volume of \<open>0\<close> is refused with \<^verbatim>\<open>Malformed command\<close>: the guard
  tests \<^verbatim>\<open>command.volume\<close> for truth before it compares it with \<open>0\<close>, and \<open>0\<close> is
  falsy. \<open>volume_accepted_iff\<close> gives the whole accepted range, \<open>0 < v \<le> 100\<close>.
\<close>

theorem volume_zero_is_rejected:
  "sendPlatformCommandAsync (s\<lparr>connected := True, client := Some c\<rparr>)
     \<lparr>type = ''VOLUME'', app = a, volume = Some (Num 0), time = t\<rparr> r
   = Inl (Error ''Malformed command'')"
  by (simp add: sendPlatformCommandAsync_def)

section \<open>Media commands on an idle session\<close>

lemma idle_media_command_rejects:
  "type command \<noteq> ''GET_STATUS'' \<Longrightarrow>
   sendMediaCommandAsync command (Inr None) = Inl (Error ''not playing'')"
  by (simp add: sendMediaCommandAsync_def mediaThen_def)

text \<open>
  C2. A media command other than \<^verbatim>\<open>GET_STATUS\<close> whose status query answers \<^verbatim>\<open>null\<close>
  is meant to end as a successful no-op. The continuation raises \<^verbatim>\<open>Error("not playing")\<close>
  instead, so the promise of the command is rejected; no media operation is invoked.
\<close>

theorem idle_media_command_is_rejected:
  "sendMediaCommandAsync \<lparr>type = ''PAUSE'', app = a, volume = v, time = t\<rparr> (Inr None)
   = Inl (Error ''not playing'')"
  by (simp add: sendMediaCommandAsync_def mediaThen_def)

section \<open>Closed forms of the loops\<close>

lemma fold_emit:
  "fold (\<lambda>nid. emit (f nid)) xs s = s\<lparr>effects := effects s @ map f xs\<rparr>"
  by (induction xs arbitrary: s) (simp_all add: emit_def)

lemma setStatusOfRegisteredNodes_eq:
  "setStatusOfRegisteredNodes st s =
     s\<lparr>effects := effects s @ map (\<lambda>nid. ENodeStatus nid st) (registeredNodes s)\<rparr>"
  by (simp add: setStatusOfRegisteredNodes_def fold_emit)

lemma sendToRegisteredNodes_eq:
  "sendToRegisteredNodes msg s =
     s\<lparr>effects := effects s @ map (\<lambda>nid. ENodeSend nid msg) (registeredNodes s)\<rparr>"
  by (simp add: sendToRegisteredNodes_def fold_emit)

lemma unjoin_eq:
  "unjoin nid s =
     s\<lparr>nodes := (nodes s)(nid := detached (nodes s nid)),
       effects := effects s @ [ENodeStatus nid connected_status]\<rparr>"
  by (simp add: unjoin_def emit_def detached_def)

lemma fold_unjoin:
  "fold unjoin xs s =
     s\<lparr>nodes := (\<lambda>n. if n \<in> set xs then detached (nodes s n) else nodes s n),
       effects := effects s @ map (\<lambda>nid. ENodeStatus nid connected_status) xs\<rparr>"
proof (induction xs arbitrary: s)
  case Nil
  show ?case by simp
next
  case (Cons x xs)
  have "(\<lambda>n. if n \<in> set xs then detached (((nodes s)(x := detached (nodes s x))) n)
              else ((nodes s)(x := detached (nodes s x))) n)
        = (\<lambda>n. if n \<in> set (x # xs) then detached (nodes s n) else nodes s n)"
    by (auto simp: fun_eq_iff detached_def)
  moreover have "fold unjoin (x # xs) s = fold unjoin xs (unjoin x s)"
    by simp
  moreover note Cons.IH [of "unjoin x s"]
  ultimately show ?case by (simp add: unjoin_eq cong: if_cong)
qed

lemma closeClient_swallowed:
  "(case closeClient s of Returned s' \<Rightarrow> s' | Threw e s' \<Rightarrow> s') =
     s\<lparr>effects := effects s @ (case client s of None \<Rightarrow> [] | Some c \<Rightarrow> [ECall c Close])\<rparr>"
  by (simp add: closeClient_def emit_def split: option.splits)

lemma disconnect_eq:
  "disconnect s =
     s\<lparr>client := None, platformStatus := None, connected := False, connecting := False,
       nodes := (\<lambda>n. if n \<in> set (registeredNodes s) then detached (nodes s n) else nodes s n),
       effects := effects s
         @ (if connected s \<or> connecting s
            then (case client s of None \<Rightarrow> [] | Some c \<Rightarrow> [ECall c Close]) else [])
         @ map (\<lambda>nid. ENodeStatus nid connected_status) (registeredNodes s)
         @ map (\<lambda>nid. ENodeStatus nid disconnected_status) (registeredNodes s)\<rparr>"
  by (simp add: disconnect_def closeClient_swallowed Let_def fold_unjoin
        setStatusOfRegisteredNodes_eq cong: if_cong)


lemma find_as_filter:
  "find P xs = (case filter P xs of [] \<Rightarrow> None | x # _ \<Rightarrow> Some x)"
  by (induction xs) simp_all

lemma list_ex_as_filter: "list_ex P xs \<longleftrightarrow> filter P xs \<noteq> []"
  by (induction xs) simp_all

lemma search_is_joinSpec:
  "(case findActiveSession status n of
      None \<Rightarrow> None
    | Some a \<Rightarrow> (case findCastV2App a n of None \<Rightarrow> None | Some c \<Rightarrow> Some (a, c)))
   = joinSpec status n"
proof (cases "applications status")
  case None
  then show ?thesis by (simp add: findActiveSession_def joinSpec_def)
next
  case (Some apps)
  have "(case find (\<lambda>session. list_ex (\<lambda>sa. APP_ID sa = appId session) sup) apps of
           None \<Rightarrow> None
         | Some a \<Rightarrow> (case find (\<lambda>sa. APP_ID sa = appId a) sup of
                        None \<Rightarrow> None | Some c \<Rightarrow> Some (a, c)))
        = (case concat (map (\<lambda>session. map (Pair session)
                     (filter (\<lambda>sa. APP_ID sa = appId session) sup)) apps) of
             [] \<Rightarrow> None | p # _ \<Rightarrow> Some p)" for sup
  proof (induction apps)
    case Nil
    show ?case by simp
  next
    case (Cons a apps)
    show ?case
    proof (cases "filter (\<lambda>sa. APP_ID sa = appId a) sup")
      case Nil
      then show ?thesis using Cons.IH by (simp add: list_ex_as_filter)
    next
      case (Cons x xs)
      then show ?thesis by (simp add: list_ex_as_filter find_as_filter)
    qed
  qed
  from this [of "supportedApplications n"] show ?thesis using Some
    by (simp add: findActiveSession_def findCastV2App_def joinSpec_def
          cong: option.case_cong)
qed

lemma joinSpec_detached [simp]: "joinSpec status (detached n) = joinSpec status n"
  by (simp add: joinSpec_def detached_def cong: option.case_cong)

lemma joinNode_connected:
  assumes "connected s" and "client s = Some c"
  shows "joinNode status nid s =
     Returned (s\<lparr>nodes := (nodes s)(nid := (if joinSpec status (nodes s nid) = None
                                              then detached (nodes s nid) else nodes s nid)),
                 effects := effects s @ [instruction c status s nid]\<rparr>)"
proof (cases "joinSpec status (nodes s nid)")
  case None
  then show ?thesis
    using search_is_joinSpec [where status = status and n = "nodes s nid"]
    by (auto simp: joinNode_def unjoin_eq instruction_def split: option.splits)
next
  case (Some p)
  then show ?thesis
    using search_is_joinSpec [where status = status and n = "nodes s nid"] assms
    by (auto simp: joinNode_def join_def joinSessionAsync_def emit_def instruction_def
          split: option.splits)
qed


lemma joinLoop_connected:
  assumes "connected s" and "client s = Some c"
  shows "joinLoop status ids s =
     Returned (s\<lparr>nodes := (\<lambda>n. if n \<in> set ids \<and> joinSpec status (nodes s n) = None
                               then detached (nodes s n) else nodes s n),
                 effects := effects s @ map (instruction c status s) ids\<rparr>)"
  using assms
proof (induction ids arbitrary: s)
  case Nil
  then show ?case by simp
next
  case (Cons x xs)
  let ?s1 = "s\<lparr>nodes := (nodes s)(x := (if joinSpec status (nodes s x) = None
                                         then detached (nodes s x) else nodes s x)),
               effects := effects s @ [instruction c status s x]\<rparr>"
  have step: "joinNode status x s = Returned ?s1"
    using Cons.prems by (rule joinNode_connected)
  have same: "joinSpec status (nodes ?s1 n) = joinSpec status (nodes s n)" for n
    by simp
  have instr: "instruction c status ?s1 = instruction c status s"
    by (auto simp: fun_eq_iff instruction_def)
  have "joinLoop status (x # xs) s = joinLoop status xs ?s1"
    by (simp add: step)
  also have "\<dots> = Returned (?s1\<lparr>nodes := (\<lambda>n. if n \<in> set xs \<and> joinSpec status (nodes ?s1 n) = None
                               then detached (nodes ?s1 n) else nodes ?s1 n),
                 effects := effects ?s1 @ map (instruction c status ?s1) xs\<rparr>)"
    using Cons.prems by (intro Cons.IH) simp_all
  also have "\<dots> = Returned (s\<lparr>nodes := (\<lambda>n. if n \<in> set (x # xs) \<and> joinSpec status (nodes s n) = None
                               then detached (nodes s n) else nodes s n),
                 effects := effects s @ map (instruction c status s) (x # xs)\<rparr>)"
    unfolding instr same by (auto simp: fun_eq_iff detached_def)
  finally show ?case .
qed

lemma joinNode_frame:
  "\<exists>N E. final (joinNode status nid s) = s\<lparr>nodes := N, effects := effects s @ E\<rparr>"
proof -
  have a: "\<exists>N E. unjoin nid s = s\<lparr>nodes := N, effects := effects s @ E\<rparr>"
    unfolding unjoin_eq by blast
  have b: "\<exists>N E. final (join nid x y s) = s\<lparr>nodes := N, effects := effects s @ E\<rparr>" for x y
  proof (cases "joinSessionAsync s x y")
    case (Inl e)
    have "s = s\<lparr>nodes := nodes s, effects := effects s @ []\<rparr>" by simp
    then show ?thesis using Inl unfolding join_def by (metis final.simps(2) old.sum.simps(5))
  next
    case (Inr p)
    have "emit (ENodeJoin nid p) s = s\<lparr>nodes := nodes s, effects := effects s @ [ENodeJoin nid p]\<rparr>"
      by (simp add: emit_def)
    then show ?thesis using Inr unfolding join_def by (metis final.simps(1) old.sum.simps(6))
  qed
  show ?thesis
    unfolding joinNode_def using a b by (auto split: option.splits)
qed

lemma joinLoop_frame:
  "\<exists>N E. final (joinLoop status ids s) = s\<lparr>nodes := N, effects := effects s @ E\<rparr>"
proof (induction ids arbitrary: s)
  case Nil
  have "s = s\<lparr>nodes := nodes s, effects := effects s @ []\<rparr>" by simp
  then show ?case by (metis final.simps(1) joinLoop.simps(1))
next
  case (Cons x xs)
  obtain N E where 1: "final (joinNode status x s) = s\<lparr>nodes := N, effects := effects s @ E\<rparr>"
    using joinNode_frame by blast
  show ?case
  proof (cases "joinNode status x s")
    case (Threw e s')
    then show ?thesis using 1 by auto
  next
    case (Returned s')
    then have s': "s' = s\<lparr>nodes := N, effects := effects s @ E\<rparr>" using 1 by simp
    obtain N' E' where "final (joinLoop status xs s') = s'\<lparr>nodes := N', effects := effects s' @ E'\<rparr>"
      using Cons.IH by blast
    then have "final (joinLoop status (x # xs) s) = s\<lparr>nodes := N', effects := effects s @ (E @ E')\<rparr>"
      using Returned s' by simp
    then show ?thesis by blast
  qed
qed

lemma joinNodes_frame:
  "\<exists>N E. final (joinNodes s) = s\<lparr>nodes := N, effects := effects s @ E\<rparr>"
proof -
  have "s = s\<lparr>nodes := nodes s, effects := effects s @ []\<rparr>" by simp
  then have "\<exists>N E. s = s\<lparr>nodes := N, effects := effects s @ E\<rparr>" by blast
  then show ?thesis
    unfolding joinNodes_def using joinLoop_frame [of _ "registeredNodes s" s]
    by (auto split: option.splits)
qed

section \<open>Gating of media commands\<close>

text \<open>With a status, what each media command does in the code: \<^verbatim>\<open>PLAY\<close> and \<^verbatim>\<open>STOP\<close>
  always invoke their operation, \<^verbatim>\<open>PAUSE\<close> needs bit 1, and \<^verbatim>\<open>SEEK\<close> needs bit 2
  and a truthy time.\<close>

lemma media_command_gating:
  "mediaThen (command\<lparr>type := ''PLAY''\<rparr>) (Some st) = Inr (Invoked PlayOp)
   \<and> mediaThen (command\<lparr>type := ''STOP''\<rparr>) (Some st) = Inr (Invoked StopOp)
   \<and> mediaThen (command\<lparr>type := ''PAUSE''\<rparr>) (Some st) =
       (if odd (supportedMediaCommands st) then Inr (Invoked PauseOp) else Inr Nothing)
   \<and> mediaThen (command\<lparr>type := ''SEEK''\<rparr>) (Some st) =
       (if odd (supportedMediaCommands st div 2) \<and> time command \<noteq> None
           \<and> time command \<noteq> Some (Num 0) \<and> time command \<noteq> Some NaN
        then Inr (Invoked (SeekOp (the (time command)))) else Inr Nothing)"
  by (simp add: mediaThen_def bit_set_1 bit_set_2 truthy_iff)

text \<open>
  C6. A \<^verbatim>\<open>SEEK\<close> is meant to run whenever the session supports seeking and the command
  carries a time. For a seek to position \<open>0\<close> it does not: the guard tests
  \<^verbatim>\<open>command.time\<close> for truth, \<open>0\<close> is falsy, and nothing is invoked although the time
  is given and bit 2 is set. The rest of the gating is as the claim says.
\<close>

theorem seek_to_zero_is_skipped:
  "time \<lparr>type = ''SEEK'', app = None, volume = None, time = Some (Num 0)\<rparr> \<noteq> None
   \<and> bit_set \<lparr>supportedMediaCommands = 2\<rparr> 2
   \<and> mediaThen \<lparr>type = ''SEEK'', app = None, volume = None, time = Some (Num 0)\<rparr>
         (Some \<lparr>supportedMediaCommands = 2\<rparr>) = Inr Nothing"
  by (simp add: mediaThen_def bit_set_2)

section \<open>Handlers on arbitrary states\<close>

lemmas eval_defs = run_def init_def register_def connect_def emit_def
  setStatusOfRegisteredNodes_eq connectThen_def statusThen_def joinNodes_def joinNode_def
  findActiveSession_def findCastV2App_def unjoin_eq sendToRegisteredNodes_eq join_def
  joinSessionAsync_def Let_def demo_sender_def demo_status_def demo_init_def
  connectCatch_def disconnect_eq reconnect_def setTimeout_def clearTimeout_def
  deregister_def onClose_def senderDone_def onClientStatus_def detached_def
  connected_status_def connecting_status_def disconnected_status_def

lemma statusThen_cases:
  obtains (returned) N E where
      "statusThen status s = Returned (s\<lparr>platformStatus := status, nodes := N, effects := effects s @ E\<rparr>)"
  | (threw) e N E where
      "statusThen status s = Threw e (s\<lparr>platformStatus := status, nodes := N, effects := effects s @ E\<rparr>)"
proof -
  obtain N E where f: "final (joinNodes (s\<lparr>platformStatus := status\<rparr>))
      = s\<lparr>platformStatus := status, nodes := N, effects := effects s @ E\<rparr>"
    using joinNodes_frame [of "s\<lparr>platformStatus := status\<rparr>"] by auto
  show thesis
  proof (cases "joinNodes (s\<lparr>platformStatus := status\<rparr>)")
    case (Returned s')
    then have "statusThen status s = Returned (s\<lparr>platformStatus := status, nodes := N,
        effects := effects s @ (E @ map (\<lambda>nid. ENodeSend nid status) (registeredNodes s))\<rparr>)"
      using f by (simp add: statusThen_def sendToRegisteredNodes_eq)
    then show ?thesis by (rule returned)
  next
    case (Threw e s')
    then have "statusThen status s = Threw e (s\<lparr>platformStatus := status, nodes := N,
        effects := effects s @ E\<rparr>)"
      using f by (simp add: statusThen_def)
    then show ?thesis by (rule threw)
  qed
qed

lemma onClientStatus_frame:
  "\<exists>N E. onClientStatus status s = s\<lparr>platformStatus := status, nodes := N, effects := effects s @ E\<rparr>"
proof -
  obtain N E where f: "final (joinNodes (s\<lparr>platformStatus := status\<rparr>))
      = s\<lparr>platformStatus := status, nodes := N, effects := effects s @ E\<rparr>"
    using joinNodes_frame [of "s\<lparr>platformStatus := status\<rparr>"] by auto
  show ?thesis
  proof (cases "joinNodes (s\<lparr>platformStatus := status\<rparr>)")
    case (Returned s')
    then have "onClientStatus status s = s\<lparr>platformStatus := status, nodes := N,
        effects := effects s @ (E @ map (\<lambda>nid. ENodeSend nid status) (registeredNodes s))\<rparr>"
      using f by (simp add: onClientStatus_def sendToRegisteredNodes_eq)
    then show ?thesis by blast
  next
    case (Threw e s')
    then have "onClientStatus status s = s\<lparr>platformStatus := status, nodes := N,
        effects := effects s @ E\<rparr>"
      using f by (simp add: onClientStatus_def)
    then show ?thesis by blast
  qed
qed

lemma connect_busy: "connected s \<or> connecting s \<Longrightarrow> connect s = s"
  by (auto simp: connect_def)

lemma register_busy:
  "connected s \<or> connecting s \<Longrightarrow>
   register nid s = s\<lparr>registeredNodes := (if nid \<in> set (registeredNodes s) then registeredNodes s
                                          else registeredNodes s @ [nid])\<rparr>"
  by (auto simp: register_def Let_def connect_busy)

lemmas handler_defs = register_def deregister_def onClose_def senderDone_def connect_def
  connectThen_def connectCatch_def reconnect_def setTimeout_def clearTimeout_def
  disconnect_eq setStatusOfRegisteredNodes_eq emit_def Let_def

lemma demo_state_eq:
  "demo_state = demo_init\<lparr>connected := True, registeredNodes := [''a''],
      platformStatus := Some demo_status, client := Some 0, nextClient := 1,
      effects := [ENewClient 0, ENodeStatus ''a'' connecting_status, ECall 0 Connect,
                  ENodeStatus ''a'' connected_status, ECall 0 GetStatus,
                  ENodeJoin ''a'' \<lparr>on_client = 0,
                     call = Join \<lparr>appId = ''233637DE'', sessionId = ''s1''\<rparr> \<lparr>APP_ID = ''233637DE''\<rparr>,
                     then_getStatus = False\<rparr>,
                  ENodeSend ''a'' (Some demo_status)]\<rparr>"
  by (simp add: demo_state_def eval_defs)

section \<open>Join protocol\<close>

lemma joinThen_ok:
  assumes "getAdapter D Y a = Some ad"
  shows "final (joinThen D Y ai nid r a s) =
     s\<lparr>nodes := (nodes s)(nid := (nodes s nid)\<lparr>adapter := Some ad, receiver := Some (ai ad r)\<rparr>),
       effects := effects s @ [EListen nid (ai ad r), ENodeStatus nid joined_status]\<rparr>"
  using assms by (simp add: joinThen_def initReceiver_def emit_def)

lemma fulfilJoins_eq:
  assumes "\<forall>(nid, a) \<in> set js. a = g nid \<and> getAdapter D Y (g nid) = Some (ad nid)"
  shows "\<exists>E. fulfilJoins D Y ai rcv js s =
     s\<lparr>nodes := (\<lambda>n. if n \<in> fst ` set js
                       then (nodes s n)\<lparr>adapter := Some (ad n), receiver := Some (ai (ad n) (rcv n))\<rparr>
                       else nodes s n),
       effects := effects s @ E\<rparr>"
  using assms
proof (induction js arbitrary: s)
  case Nil
  have "s = s\<lparr>effects := effects s @ []\<rparr>" by simp
  then have "\<exists>E. s = s\<lparr>effects := effects s @ E\<rparr>" by blast
  then show ?case by (simp add: fulfilJoins_def)
next
  case (Cons j js)
  obtain nid a where j: "j = (nid, a)" by (cases j)
  have ga: "getAdapter D Y a = Some (ad nid)" using Cons.prems j by auto
  let ?s1 = "final (joinThen D Y ai nid (rcv nid) a s)"
  have s1: "?s1 = s\<lparr>nodes := (nodes s)(nid := (nodes s nid)\<lparr>adapter := Some (ad nid),
                                        receiver := Some (ai (ad nid) (rcv nid))\<rparr>),
       effects := effects s @ [EListen nid (ai (ad nid) (rcv nid)), ENodeStatus nid joined_status]\<rparr>"
    by (rule joinThen_ok [OF ga])
  have "\<forall>(nid, a) \<in> set js. a = g nid \<and> getAdapter D Y (g nid) = Some (ad nid)"
    using Cons.prems by auto
  from Cons.IH [OF this, of ?s1] obtain E where
    ih: "fulfilJoins D Y ai rcv js ?s1 =
      ?s1\<lparr>nodes := (\<lambda>n. if n \<in> fst ` set js
                       then (nodes ?s1 n)\<lparr>adapter := Some (ad n), receiver := Some (ai (ad n) (rcv n))\<rparr>
                       else nodes ?s1 n),
       effects := effects ?s1 @ E\<rparr>" by blast
  have "fulfilJoins D Y ai rcv (j # js) s = fulfilJoins D Y ai rcv js ?s1"
    by (simp add: fulfilJoins_def j)
  also note ih
  also have "?s1\<lparr>nodes := (\<lambda>n. if n \<in> fst ` set js
                       then (nodes ?s1 n)\<lparr>adapter := Some (ad n), receiver := Some (ai (ad n) (rcv n))\<rparr>
                       else nodes ?s1 n),
       effects := effects ?s1 @ E\<rparr>
     = s\<lparr>nodes := (\<lambda>n. if n \<in> fst ` set (j # js)
                       then (nodes s n)\<lparr>adapter := Some (ad n), receiver := Some (ai (ad n) (rcv n))\<rparr>
                       else nodes s n),
       effects := effects s @ ([EListen nid (ai (ad nid) (rcv nid)), ENodeStatus nid joined_status] @ E)\<rparr>"
    unfolding s1 by (auto simp: fun_eq_iff j)
  finally show ?case by blast
qed

lemma joinSpec_supported:
  assumes "joinSpec status n = Some (activeSession, a)"
  shows "a \<in> set (supportedApplications n)"
proof -
  obtain apps where apps: "applications status = Some apps"
    using assms by (auto simp: joinSpec_def split: option.splits)
  let ?ps = "concat (map (\<lambda>session. map (Pair session)
                 (filter (\<lambda>capability. APP_ID capability = appId session)
                    (supportedApplications n))) apps)"
  obtain rest where "?ps = (activeSession, a) # rest"
    using assms apps by (auto simp: joinSpec_def split: list.splits)
  then have "(activeSession, a) \<in> set ?ps" by simp
  then show ?thesis by auto
qed

lemma getAdapter_imported:
  "a = D \<or> a = Y \<Longrightarrow> getAdapter D Y a \<noteq> None"
  by (auto simp: getAdapter_def)

lemma issued_instruction:
  "issued (instruction c status s nid) =
     (case joinSpec status (nodes s nid) of
        None \<Rightarrow> []
      | Some (activeSession, a) \<Rightarrow> [(nid, a)])"
  by (simp add: instruction_def connected_status_def split: option.splits prod.splits)

lemma issued_member:
  "(nid, a) \<in> set (concat (map issued (map (instruction c status s) ids))) \<longleftrightarrow>
     nid \<in> set ids \<and> (\<exists>x. joinSpec status (nodes s nid) = Some (x, a))"
proof (induction ids)
  case Nil
  show ?case by simp
next
  case (Cons i ids)
  show ?case
  proof (cases "joinSpec status (nodes s i)")
    case None
    then show ?thesis using Cons.IH by (auto simp: issued_instruction)
  next
    case (Some p)
    then show ?thesis using Cons.IH by (cases p) (auto simp: issued_instruction)
  qed
qed

lemma joinRound_eq:
  assumes "connected s" and "platformStatus s = Some status" and "client s = Some c"
    and "\<forall>nid \<in> set (registeredNodes s). supportedApplications (nodes s nid) = [D, Y]"
  shows "\<exists>E. joinRound D Y ai rcv s =
     s\<lparr>nodes := (\<lambda>n. if n \<in> set (registeredNodes s)
                       then (case joinSpec status (nodes s n) of
                               None \<Rightarrow> detached (nodes s n)
                             | Some (activeSession, a) \<Rightarrow>
                                 (nodes s n)\<lparr>adapter := getAdapter D Y a,
                                   receiver := Some (ai (the (getAdapter D Y a)) (rcv n))\<rparr>)
                       else nodes s n),
       effects := effects s @ E\<rparr>"
proof -
  let ?regs = "registeredNodes s"
  let ?s1 = "s\<lparr>nodes := (\<lambda>n. if n \<in> set ?regs \<and> joinSpec status (nodes s n) = None
                             then detached (nodes s n) else nodes s n),
               effects := effects s @ map (instruction c status s) ?regs\<rparr>"
  let ?g = "\<lambda>n. snd (the (joinSpec status (nodes s n)))"
  let ?ad = "\<lambda>n. the (getAdapter D Y (?g n))"
  let ?js = "concat (map issued (map (instruction c status s) ?regs))"
  have 1: "joinNodes s = Returned ?s1"
    using assms by (simp add: joinNodes_def joinLoop_connected)
  have round: "joinRound D Y ai rcv s = fulfilJoins D Y ai rcv ?js ?s1"
    by (simp add: joinRound_def 1 Let_def)
  have mem: "(nid, a) \<in> set ?js \<longleftrightarrow>
      nid \<in> set ?regs \<and> (\<exists>x. joinSpec status (nodes s nid) = Some (x, a))" for nid a
    by (rule issued_member)
  have ok: "\<forall>(nid, a) \<in> set ?js. a = ?g nid \<and> getAdapter D Y (?g nid) = Some (?ad nid)"
  proof (clarify)
    fix nid a assume "(nid, a) \<in> set ?js"
    then obtain x where r: "nid \<in> set ?regs" and j: "joinSpec status (nodes s nid) = Some (x, a)"
      using mem by blast
    have "a \<in> set (supportedApplications (nodes s nid))" using j by (rule joinSpec_supported)
    then have "a = D \<or> a = Y" using assms(4) r by auto
    then have "getAdapter D Y a \<noteq> None" by (rule getAdapter_imported)
    then show "a = ?g nid \<and> getAdapter D Y (?g nid) = Some (?ad nid)" using j by auto
  qed
  from fulfilJoins_eq [OF ok, of ai rcv ?s1] obtain E where
    f: "fulfilJoins D Y ai rcv ?js ?s1 =
      ?s1\<lparr>nodes := (\<lambda>n. if n \<in> fst ` set ?js
                       then (nodes ?s1 n)\<lparr>adapter := Some (?ad n), receiver := Some (ai (?ad n) (rcv n))\<rparr>
                       else nodes ?s1 n),
       effects := effects ?s1 @ E\<rparr>" by blast
  have fstjs: "n \<in> fst ` set ?js \<longleftrightarrow> n \<in> set ?regs \<and> joinSpec status (nodes s n) \<noteq> None" for n
  proof
    assume "n \<in> fst ` set ?js"
    then obtain a where "(n, a) \<in> set ?js" by force
    then show "n \<in> set ?regs \<and> joinSpec status (nodes s n) \<noteq> None"
      using mem [of n a] by auto
  next
    assume h: "n \<in> set ?regs \<and> joinSpec status (nodes s n) \<noteq> None"
    then obtain x a where "joinSpec status (nodes s n) = Some (x, a)" by (cases "joinSpec status (nodes s n)") auto
    then have "(n, a) \<in> set ?js" using mem [of n a] h by blast
    then show "n \<in> fst ` set ?js" by force
  qed
  have nodes_eq: "(\<lambda>n. if n \<in> fst ` set ?js
                       then (nodes ?s1 n)\<lparr>adapter := Some (?ad n), receiver := Some (ai (?ad n) (rcv n))\<rparr>
                       else nodes ?s1 n)
      = (\<lambda>n. if n \<in> set ?regs
                       then (case joinSpec status (nodes s n) of
                               None \<Rightarrow> detached (nodes s n)
                             | Some (activeSession, a) \<Rightarrow>
                                 (nodes s n)\<lparr>adapter := getAdapter D Y a,
                                   receiver := Some (ai (the (getAdapter D Y a)) (rcv n))\<rparr>)
                       else nodes s n)"
  proof (rule ext)
    fix n
    show "(if n \<in> fst ` set ?js
                       then (nodes ?s1 n)\<lparr>adapter := Some (?ad n), receiver := Some (ai (?ad n) (rcv n))\<rparr>
                       else nodes ?s1 n)
      = (if n \<in> set ?regs
                       then (case joinSpec status (nodes s n) of
                               None \<Rightarrow> detached (nodes s n)
                             | Some (activeSession, a) \<Rightarrow>
                                 (nodes s n)\<lparr>adapter := getAdapter D Y a,
                                   receiver := Some (ai (the (getAdapter D Y a)) (rcv n))\<rparr>)
                       else nodes s n)"
    proof (cases "n \<in> set ?regs")
      case False
      then show ?thesis using fstjs [of n] by simp
    next
      case True
      show ?thesis
      proof (cases "joinSpec status (nodes s n)")
        case None
        then show ?thesis using True fstjs [of n] by simp
      next
        case (Some p)
        obtain x a where p: "p = (x, a)" by (cases p)
        have "(n, a) \<in> set ?js" using mem [of n a] True Some p by auto
        then have "getAdapter D Y a = Some (?ad n)" using ok Some p by auto
        then show ?thesis using True Some p fstjs [of n] by simp
      qed
    qed
  qed
  have "joinRound D Y ai rcv s =
      s\<lparr>nodes := (\<lambda>n. if n \<in> set ?regs
                       then (case joinSpec status (nodes s n) of
                               None \<Rightarrow> detached (nodes s n)
                             | Some (activeSession, a) \<Rightarrow>
                                 (nodes s n)\<lparr>adapter := getAdapter D Y a,
                                   receiver := Some (ai (the (getAdapter D Y a)) (rcv n))\<rparr>)
                       else nodes s n),
       effects := effects s @ (map (instruction c status s) ?regs @ E)\<rparr>"
    unfolding round f nodes_eq by simp
  then show ?thesis by blast
qed

lemma joinSpec_cong:
  "supportedApplications n = supportedApplications n' \<Longrightarrow> joinSpec status n = joinSpec status n'"
  by (simp add: joinSpec_def cong: option.case_cong)

lemma rejoin:
  assumes "connected s" and "platformStatus s = Some status" and "client s = Some c"
    and sup: "\<forall>nid \<in> set (registeredNodes s). supportedApplications (nodes s nid) = [D, Y]"
  shows "let t1 = joinRound D Y ai r1 s; t2 = joinRound D Y ai r2 t1
     in connected t1 \<and> platformStatus t1 = Some status \<and> client t1 = Some c
        \<and> registeredNodes t1 = registeredNodes s
        \<and> (\<exists>u. joinNodes t1 = Returned u
                \<and> effects u = effects t1 @ map (instruction c status s) (registeredNodes s))
        \<and> (\<forall>nid \<in> set (registeredNodes s).
              case joinSpec status (nodes s nid) of
                None \<Rightarrow> nodes t1 nid = detached (nodes s nid) \<and> nodes t2 nid = nodes t1 nid
              | Some (activeSession, a) \<Rightarrow>
                  (\<exists>ad. getAdapter D Y a = Some ad
                     \<and> adapter (nodes t1 nid) = Some ad
                     \<and> receiver (nodes t1 nid) = Some (ai ad (r1 nid))
                     \<and> adapter (nodes t2 nid) = Some ad
                     \<and> receiver (nodes t2 nid) = Some (ai ad (r2 nid))))"
proof -
  let ?N = "\<lambda>r s n. if n \<in> set (registeredNodes s)
                       then (case joinSpec status (nodes s n) of
                               None \<Rightarrow> detached (nodes s n)
                             | Some (activeSession, a) \<Rightarrow>
                                 (nodes s n)\<lparr>adapter := getAdapter D Y a,
                                   receiver := Some (ai (the (getAdapter D Y a)) (r n))\<rparr>)
                       else nodes s n"
  define t1 where "t1 = joinRound D Y ai r1 s"
  define t2 where "t2 = joinRound D Y ai r2 t1"
  obtain E1 where "t1 = s\<lparr>nodes := ?N r1 s, effects := effects s @ E1\<rparr>"
    unfolding t1_def using joinRound_eq [OF assms, of ai r1] by blast
  then have f1: "connected t1" "platformStatus t1 = Some status" "client t1 = Some c"
      "registeredNodes t1 = registeredNodes s"
    and n1: "nodes t1 = ?N r1 s"
    using assms by simp_all
  have supp1: "supportedApplications (nodes t1 n) = supportedApplications (nodes s n)" for n
    unfolding n1 by (auto simp: detached_def split: option.splits)
  have spec1: "joinSpec status (nodes t1 n) = joinSpec status (nodes s n)" for n
    by (rule joinSpec_cong [OF supp1])
  have sup1: "\<forall>nid \<in> set (registeredNodes t1). supportedApplications (nodes t1 nid) = [D, Y]"
    using sup f1(4) supp1 by simp
  obtain E2 where "t2 = t1\<lparr>nodes := ?N r2 t1, effects := effects t1 @ E2\<rparr>"
    unfolding t2_def using joinRound_eq [OF f1(1-3) sup1, of ai r2] by blast
  then have n2: "nodes t2 = ?N r2 t1" by simp
  have instr: "instruction c status t1 = instruction c status s"
    by (simp add: fun_eq_iff instruction_def spec1)
  have "\<exists>u. joinNodes t1 = Returned u
      \<and> effects u = effects t1 @ map (instruction c status t1) (registeredNodes t1)"
    using f1 by (simp add: joinNodes_def joinLoop_connected)
  then have run2: "\<exists>u. joinNodes t1 = Returned u
      \<and> effects u = effects t1 @ map (instruction c status s) (registeredNodes s)"
    by (simp add: instr f1(4))
  have per: "case joinSpec status (nodes s nid) of
                None \<Rightarrow> nodes t1 nid = detached (nodes s nid) \<and> nodes t2 nid = nodes t1 nid
              | Some (activeSession, a) \<Rightarrow>
                  (\<exists>ad. getAdapter D Y a = Some ad
                     \<and> adapter (nodes t1 nid) = Some ad
                     \<and> receiver (nodes t1 nid) = Some (ai ad (r1 nid))
                     \<and> adapter (nodes t2 nid) = Some ad
                     \<and> receiver (nodes t2 nid) = Some (ai ad (r2 nid)))"
    if reg: "nid \<in> set (registeredNodes s)" for nid
  proof (cases "joinSpec status (nodes s nid)")
    case None
    then have a: "nodes t1 nid = detached (nodes s nid)" using reg by (simp add: n1)
    have "nodes t2 nid = detached (nodes t1 nid)"
      using reg None spec1 [of nid] f1(4) by (simp add: n2)
    then show ?thesis using a None by (simp add: detached_def)
  next
    case (Some p)
    obtain x a where p: "p = (x, a)" by (cases p)
    have "a \<in> set (supportedApplications (nodes s nid))"
      using Some p by (auto intro: joinSpec_supported)
    then have "a = D \<or> a = Y" using sup reg by auto
    then obtain ad where ad: "getAdapter D Y a = Some ad"
      using getAdapter_imported [of a D Y] by auto
    have s1: "joinSpec status (nodes t1 nid) = Some (x, a)" using spec1 [of nid] Some p by simp
    have "adapter (nodes t1 nid) = Some ad" "receiver (nodes t1 nid) = Some (ai ad (r1 nid))"
      using reg Some p ad by (simp_all add: n1)
    moreover have "adapter (nodes t2 nid) = Some ad" "receiver (nodes t2 nid) = Some (ai ad (r2 nid))"
      using reg s1 ad f1(4) by (simp_all add: n2)
    ultimately show ?thesis using Some p ad by simp
  qed
  show ?thesis
    unfolding Let_def t1_def [symmetric] t2_def [symmetric]
    using f1 run2 per by blast
qed

text \<open>
  C5, as the claim states it, fails in its last sentence: a second run of the protocol on
  the same snapshot joins the matching session again, and when that join is answered
  \<^verbatim>\<open>initReceiver\<close> replaces the sender's receiver by the new one. Here the first join
  is answered with receiver \<open>1\<close> and the second with receiver \<open>2\<close>.
\<close>

theorem rejoin_replaces_receiver:
  "platformStatus (joinRound \<lparr>APP_ID = ''CC1AD845''\<rparr> \<lparr>APP_ID = ''233637DE''\<rparr> (\<lambda>ad r. r) (\<lambda>_. 1) demo_state)
     = platformStatus demo_state
   \<and> receiver (nodes (joinRound \<lparr>APP_ID = ''CC1AD845''\<rparr> \<lparr>APP_ID = ''233637DE''\<rparr> (\<lambda>ad r. r) (\<lambda>_. 1)
                        demo_state) ''a'') = Some 1
   \<and> receiver (nodes (joinRound \<lparr>APP_ID = ''CC1AD845''\<rparr> \<lparr>APP_ID = ''233637DE''\<rparr> (\<lambda>ad r. r) (\<lambda>_. 2)
                        (joinRound \<lparr>APP_ID = ''CC1AD845''\<rparr> \<lparr>APP_ID = ''233637DE''\<rparr> (\<lambda>ad r. r) (\<lambda>_. 1)
                           demo_state)) ''a'') = Some 2"
  by (simp add: joinRound_def fulfilJoins_def joinThen_def initReceiver_def getAdapter_def
        demo_state_eq eval_defs)

text \<open>
  C5, amended. On a connected node holding the status snapshot \<open>status\<close>, \<^verbatim>\<open>joinNodes\<close>
  returns and gives every registered sender, in order, the instruction the specification
  describes: join the first matching session with the matching capability, else unjoin.
  Both handlers of a status broadcast do exactly this and then forward the snapshot. The
  instructions depend on the snapshot and the capabilities only, so a second run on the
  same snapshot repeats them. With the joins of each run answered, a sender without a
  match is detached after the first run and unchanged by the second; a sender with a
  match is attached after each run with the adapter of the matching capability, and its
  receiver is the one the latest join returned.
\<close>

theorem joinNodes_follows_snapshot:
  assumes "connected s" and "platformStatus s = Some status" and "client s = Some c"
  shows "(\<exists>s1 s2. joinNodes s = Returned s1 \<and> joinNodes s1 = Returned s2
       \<and> effects s1 = effects s @ map (instruction c status s) (registeredNodes s)
       \<and> nodes s1 = (\<lambda>n. if n \<in> set (registeredNodes s) \<and> joinSpec status (nodes s n) = None
                          then detached (nodes s n) else nodes s n)
       \<and> nodes s2 = nodes s1
       \<and> effects s2 = effects s1 @ map (instruction c status s) (registeredNodes s)
       \<and> onClientStatus (Some status) s = sendToRegisteredNodes (Some status) s1
       \<and> statusThen (Some status) s = Returned (sendToRegisteredNodes (Some status) s1))
     \<and> ((\<forall>nid \<in> set (registeredNodes s). supportedApplications (nodes s nid) = [D, Y]) \<longrightarrow>
         (let t1 = joinRound D Y ai r1 s; t2 = joinRound D Y ai r2 t1
          in connected t1 \<and> platformStatus t1 = Some status \<and> client t1 = Some c
             \<and> registeredNodes t1 = registeredNodes s
             \<and> (\<exists>u. joinNodes t1 = Returned u
                    \<and> effects u = effects t1 @ map (instruction c status s) (registeredNodes s))
             \<and> (\<forall>nid \<in> set (registeredNodes s).
                   case joinSpec status (nodes s nid) of
                     None \<Rightarrow> nodes t1 nid = detached (nodes s nid) \<and> nodes t2 nid = nodes t1 nid
                   | Some (activeSession, a) \<Rightarrow>
                       (\<exists>ad. getAdapter D Y a = Some ad
                          \<and> adapter (nodes t1 nid) = Some ad
                          \<and> receiver (nodes t1 nid) = Some (ai ad (r1 nid))
                          \<and> adapter (nodes t2 nid) = Some ad
                          \<and> receiver (nodes t2 nid) = Some (ai ad (r2 nid))))))"
proof -
  let ?s1 = "s\<lparr>nodes := (\<lambda>n. if n \<in> set (registeredNodes s) \<and> joinSpec status (nodes s n) = None
                             then detached (nodes s n) else nodes s n),
               effects := effects s @ map (instruction c status s) (registeredNodes s)\<rparr>"
  have 1: "joinNodes s = Returned ?s1"
    using assms by (simp add: joinNodes_def joinLoop_connected)
  have i: "instruction c status ?s1 = instruction c status s"
    by (auto simp: fun_eq_iff instruction_def)
  have n: "(\<lambda>n. if n \<in> set (registeredNodes ?s1) \<and> joinSpec status (nodes ?s1 n) = None
               then detached (nodes ?s1 n) else nodes ?s1 n) = nodes ?s1"
    by (auto simp: fun_eq_iff detached_def)
  have "joinNodes ?s1 = joinLoop status (registeredNodes ?s1) ?s1"
    using assms by (simp add: joinNodes_def)
  also have "\<dots> = Returned (?s1\<lparr>nodes := (\<lambda>n. if n \<in> set (registeredNodes ?s1) \<and> joinSpec status (nodes ?s1 n) = None
               then detached (nodes ?s1 n) else nodes ?s1 n),
          effects := effects ?s1 @ map (instruction c status ?s1) (registeredNodes ?s1)\<rparr>)"
    using assms by (intro joinLoop_connected) simp_all
  finally have 2: "joinNodes ?s1 = Returned (?s1\<lparr>nodes := nodes ?s1,
          effects := effects ?s1 @ map (instruction c status s) (registeredNodes s)\<rparr>)"
    unfolding n i by simp
  have same: "s\<lparr>platformStatus := Some status\<rparr> = s"
    using assms by simp
  have 3: "onClientStatus (Some status) s = sendToRegisteredNodes (Some status) ?s1"
    "statusThen (Some status) s = Returned (sendToRegisteredNodes (Some status) ?s1)"
    unfolding onClientStatus_def statusThen_def same 1 by simp_all
  have first: "\<exists>s1 s2. joinNodes s = Returned s1 \<and> joinNodes s1 = Returned s2
       \<and> effects s1 = effects s @ map (instruction c status s) (registeredNodes s)
       \<and> nodes s1 = (\<lambda>n. if n \<in> set (registeredNodes s) \<and> joinSpec status (nodes s n) = None
                          then detached (nodes s n) else nodes s n)
       \<and> nodes s2 = nodes s1
       \<and> effects s2 = effects s1 @ map (instruction c status s) (registeredNodes s)
       \<and> onClientStatus (Some status) s = sendToRegisteredNodes (Some status) s1
       \<and> statusThen (Some status) s = Returned (sendToRegisteredNodes (Some status) s1)"
    apply (rule exI [of _ ?s1])
    apply (rule exI [of _ "?s1\<lparr>nodes := nodes ?s1,
          effects := effects ?s1 @ map (instruction c status s) (registeredNodes s)\<rparr>"])
    using 1 2 3 by simp
  show ?thesis
    using first rejoin [OF assms, of D Y ai r1 r2] by blast
qed

text \<open>The example state: the only sender is told to join the second session, the first
  one whose application it supports, and holds the same adapter after either round.\<close>

theorem joinNodes_follows_snapshot_witness:
  "connected demo_state \<and> platformStatus demo_state = Some demo_status
   \<and> client demo_state = Some 0
   \<and> registeredNodes demo_state = [''a'']
   \<and> supportedApplications (nodes demo_state ''a'')
         = [\<lparr>APP_ID = ''CC1AD845''\<rparr>, \<lparr>APP_ID = ''233637DE''\<rparr>]
   \<and> (\<exists>s1. joinNodes demo_state = Returned s1
        \<and> effects s1 = effects demo_state
             @ [ENodeJoin ''a'' \<lparr>on_client = 0,
                   call = Join \<lparr>appId = ''233637DE'', sessionId = ''s1''\<rparr> \<lparr>APP_ID = ''233637DE''\<rparr>,
                   then_getStatus = False\<rparr>])
   \<and> adapter (nodes (joinRound \<lparr>APP_ID = ''CC1AD845''\<rparr> \<lparr>APP_ID = ''233637DE''\<rparr> (\<lambda>ad r. r) (\<lambda>_. 1)
                       demo_state) ''a'') = Some YouTubeReceiverAdapter
   \<and> adapter (nodes (joinRound \<lparr>APP_ID = ''CC1AD845''\<rparr> \<lparr>APP_ID = ''233637DE''\<rparr> (\<lambda>ad r. r) (\<lambda>_. 2)
                       (joinRound \<lparr>APP_ID = ''CC1AD845''\<rparr> \<lparr>APP_ID = ''233637DE''\<rparr> (\<lambda>ad r. r) (\<lambda>_. 1)
                          demo_state)) ''a'') = Some YouTubeReceiverAdapter"
proof -
  let ?D = "\<lparr>APP_ID = ''CC1AD845''\<rparr>" and ?Y = "\<lparr>APP_ID = ''233637DE''\<rparr>"
  let ?t1 = "joinRound ?D ?Y (\<lambda>ad r. r) (\<lambda>_. 1) demo_state"
  let ?t2 = "joinRound ?D ?Y (\<lambda>ad r. r) (\<lambda>_. 2) ?t1"
  have h: "connected demo_state" "platformStatus demo_state = Some demo_status"
    "client demo_state = Some 0"
    by (simp_all add: demo_state_eq demo_init_def init_def)
  have sup: "\<forall>nid \<in> set (registeredNodes demo_state).
         supportedApplications (nodes demo_state nid) = [?D, ?Y]"
    and reg: "''a'' \<in> set (registeredNodes demo_state)"
    and regs: "registeredNodes demo_state = [''a'']"
      "supportedApplications (nodes demo_state ''a'') = [?D, ?Y]"
    by (simp_all add: demo_state_eq demo_init_def init_def demo_sender_def)
  have i: "map (instruction 0 demo_status demo_state) (registeredNodes demo_state)
      = [ENodeJoin ''a'' \<lparr>on_client = 0,
                   call = Join \<lparr>appId = ''233637DE'', sessionId = ''s1''\<rparr> ?Y,
                   then_getStatus = False\<rparr>]"
    and js: "joinSpec demo_status (nodes demo_state ''a'')
      = Some (\<lparr>appId = ''233637DE'', sessionId = ''s1''\<rparr>, ?Y)"
    by (simp_all add: demo_state_eq demo_init_def init_def instruction_def joinSpec_def
          demo_sender_def demo_status_def)
  have ga: "getAdapter ?D ?Y ?Y = Some YouTubeReceiverAdapter"
    by (simp add: getAdapter_def)
  note main = joinNodes_follows_snapshot [OF h, of ?D ?Y "\<lambda>ad r. r" "\<lambda>_. 1" "\<lambda>_. 2"]
  from main have "\<exists>s1. joinNodes demo_state = Returned s1
        \<and> effects s1 = effects demo_state
             @ map (instruction 0 demo_status demo_state) (registeredNodes demo_state)"
    by blast
  moreover have "let t1 = ?t1; t2 = joinRound ?D ?Y (\<lambda>ad r. r) (\<lambda>_. 2) t1
      in connected t1 \<and> platformStatus t1 = Some demo_status \<and> client t1 = Some 0
         \<and> registeredNodes t1 = registeredNodes demo_state
         \<and> (\<exists>u. joinNodes t1 = Returned u
                \<and> effects u = effects t1 @ map (instruction 0 demo_status demo_state)
                                              (registeredNodes demo_state))
         \<and> (\<forall>nid \<in> set (registeredNodes demo_state).
               case joinSpec demo_status (nodes demo_state nid) of
                 None \<Rightarrow> nodes t1 nid = detached (nodes demo_state nid) \<and> nodes t2 nid = nodes t1 nid
               | Some (activeSession, a) \<Rightarrow>
                   (\<exists>ad. getAdapter ?D ?Y a = Some ad
                      \<and> adapter (nodes t1 nid) = Some ad
                      \<and> receiver (nodes t1 nid) = Some 1
                      \<and> adapter (nodes t2 nid) = Some ad
                      \<and> receiver (nodes t2 nid) = Some 2))"
    by (rule mp [OF conjunct2 [OF main] sup])
  then have "case joinSpec demo_status (nodes demo_state ''a'') of
                 None \<Rightarrow> nodes ?t1 ''a'' = detached (nodes demo_state ''a'') \<and> nodes ?t2 ''a'' = nodes ?t1 ''a''
               | Some (activeSession, a) \<Rightarrow>
                   (\<exists>ad. getAdapter ?D ?Y a = Some ad
                      \<and> adapter (nodes ?t1 ''a'') = Some ad
                      \<and> receiver (nodes ?t1 ''a'') = Some 1
                      \<and> adapter (nodes ?t2 ''a'') = Some ad
                      \<and> receiver (nodes ?t2 ''a'') = Some 2)"
    unfolding Let_def using reg by blast
  then have "adapter (nodes ?t1 ''a'') = Some YouTubeReceiverAdapter
      \<and> adapter (nodes ?t2 ''a'') = Some YouTubeReceiverAdapter"
    unfolding js using ga by auto
  ultimately show ?thesis using h regs unfolding i by blast
qed

section \<open>Dispatch of a command with an unknown application\<close>

text \<open>
  C7, as the claim states it, fails: an unattached sender that dispatches
  \<^verbatim>\<open>{type: "PLAY", app: "Netflix"}\<close> on a connected node gets no error; the
  connection node is asked to launch, with \<^verbatim>\<open>null\<close> as the application.
\<close>

theorem unknown_app_is_launched:
  "type \<lparr>type = ''PLAY'', app = Some ''Netflix'', volume = None, time = None\<rparr> \<notin> set platformCommands
   \<and> receiver (nodes demo_state ''b'') = None
   \<and> getCommandApp \<lparr>APP_ID = ''CC1AD845''\<rparr> \<lparr>APP_ID = ''233637DE''\<rparr>
        \<lparr>type = ''PLAY'', app = Some ''Netflix'', volume = None, time = None\<rparr> = None
   \<and> sendCommandAsync \<lparr>APP_ID = ''CC1AD845''\<rparr> \<lparr>APP_ID = ''233637DE''\<rparr> demo_state ''b''
        \<lparr>type = ''PLAY'', app = Some ''Netflix'', volume = None, time = None\<rparr>
       = Inr (LaunchThenRetry \<lparr>on_client = 0, call = Launch None, then_getStatus = False\<rparr>)"
  by (simp add: demo_state_eq demo_init_def init_def demo_sender_def platformCommands_def
        getCommandApp_def sendCommandAsync_def launchAsync_def)

text \<open>
  C7, amended. For a command that is not device-wide, sent by an unattached sender, with
  an \<^verbatim>\<open>app\<close> that \<^verbatim>\<open>getCommandApp\<close> does not resolve, the dispatch asks the
  connection node to launch the \<^verbatim>\<open>null\<close> application: it fails with
  \<^verbatim>\<open>Not connected\<close> when the node is not connected, and otherwise the launch call goes
  to the transport.
\<close>

theorem unresolved_app_dispatch:
  assumes "type command \<notin> set platformCommands"
    and "receiver (nodes s nid) = None \<or> adapter (nodes s nid) = None"
    and "app command \<noteq> Some ''DefaultMediaReceiver''" and "app command \<noteq> Some ''YouTube''"
  shows "sendCommandAsync D Y s nid command =
     (if \<not> connected s then Inl (Error ''Not connected'')
      else case client s of
             None \<Rightarrow> Inl TypeError
           | Some c \<Rightarrow> Inr (LaunchThenRetry
                \<lparr>on_client = c, call = Launch None, then_getStatus = False\<rparr>))"
  using assms
  by (auto simp: sendCommandAsync_def getCommandApp_def launchAsync_def split: option.splits)

theorem unresolved_app_dispatch_witness:
  "type \<lparr>type = ''QUEUE_NEXT'', app = Some ''Spotify'', volume = None, time = None\<rparr>
     \<notin> set platformCommands
   \<and> (receiver (nodes demo_init ''b'') = None \<or> adapter (nodes demo_init ''b'') = None)
   \<and> sendCommandAsync \<lparr>APP_ID = ''CC1AD845''\<rparr> \<lparr>APP_ID = ''233637DE''\<rparr> demo_init ''b''
        \<lparr>type = ''QUEUE_NEXT'', app = Some ''Spotify'', volume = None, time = None\<rparr>
       = Inl (Error ''Not connected'')"
  using unresolved_app_dispatch [of "\<lparr>type = ''QUEUE_NEXT'', app = Some ''Spotify'', volume = None, time = None\<rparr>"
      demo_init "''b''" "\<lparr>APP_ID = ''CC1AD845''\<rparr>" "\<lparr>APP_ID = ''233637DE''\<rparr>"]
  by (simp add: demo_init_def init_def demo_sender_def platformCommands_def)

section \<open>Leaving the connected and connecting states\<close>

lemma count_status [simp]: "count_list (map (\<lambda>nid. ENodeStatus nid st) xs) (ECall c Close) = 0"
  by (induction xs) simp_all

lemma joinNode_calls:
  "count_list (effects (final (joinNode status nid s))) (ECall c m) = count_list (effects s) (ECall c m)"
  by (auto simp: joinNode_def join_def unjoin_eq emit_def split: option.splits sum.splits)

lemma joinLoop_calls:
  "count_list (effects (final (joinLoop status ids s))) (ECall c m) = count_list (effects s) (ECall c m)"
proof (induction ids arbitrary: s)
  case Nil
  show ?case by simp
next
  case (Cons x xs)
  show ?case
  proof (cases "joinNode status x s")
    case (Returned s')
    then show ?thesis using Cons.IH [of s'] joinNode_calls [of status x s c m] by simp
  next
    case (Threw e s')
    then show ?thesis using joinNode_calls [of status x s c m] by simp
  qed
qed

lemma joinNodes_calls:
  "count_list (effects (final (joinNodes s))) (ECall c m) = count_list (effects s) (ECall c m)"
  by (simp add: joinNodes_def joinLoop_calls split: option.splits)

lemma statusThen_threw_calls:
  assumes "statusThen status s = Threw x s'"
  shows "count_list (effects s') (ECall c m) = count_list (effects s) (ECall c m)"
proof -
  have "s' = final (joinNodes (s\<lparr>platformStatus := status\<rparr>))"
    using assms by (auto simp: statusThen_def split: outcome.splits)
  then show ?thesis using joinNodes_calls [of "s\<lparr>platformStatus := status\<rparr>" c m] by simp
qed

lemma torn_down_disconnect:
  assumes "connected s \<or> connecting s" and "effects s = []"
  shows "torn_down s (disconnect s)" and "torn_down s (reconnect (disconnect s))"
    and "torn_down s (step OwnerClose s)"
  using assms
  by (auto simp: torn_down_def handler_defs detached_def list_all_iff split: option.splits)

text \<open>
  C9. From a connected or connecting node, an explicit \<^verbatim>\<open>disconnect\<close>, a transport
  error event, a transport close event, the owner's close, a failed connect or status
  query, and the deregistration of the last sender each tear the connection down: the
  node ends neither connected nor connecting, with no client and no device status, every
  registered sender unjoined and sent the "disconnected" status, and the client held
  before closed exactly once, whether or not \<^verbatim>\<open>close()\<close> raises. The same holds for
  any other event after which the node is neither connected nor connecting.
\<close>

theorem leaving_connection_tears_down:
  assumes "connected s \<or> connecting s" and "effects s = []"
  shows "torn_down s (disconnect s)
     \<and> torn_down s (step ClientError s)
     \<and> torn_down s (step ClientClosed s)
     \<and> torn_down s (step OwnerClose s)
     \<and> torn_down s (step ConnectRejected s)
     \<and> torn_down s (step StatusRejected s)
     \<and> (removeAll nid (registeredNodes s) = [] \<and> \<not> closing s
           \<longrightarrow> torn_down s (step (Deregister nid) s))
     \<and> (\<not> connected (step e s) \<and> \<not> connecting (step e s) \<longrightarrow> torn_down s (step e s))"
proof -
  note td = torn_down_disconnect [OF assms]
  have dereg: "torn_down s (step (Deregister nid) s)"
    if "removeAll nid (registeredNodes s) = []" "\<not> closing s"
    using that assms
    by (auto simp: torn_down_def handler_defs detached_def list_all_iff split: option.splits)
  have every: "torn_down s (step e s)"
    if out: "\<not> connected (step e s)" "\<not> connecting (step e s)"
  proof (cases e)
    case (Register nid)
    then show ?thesis using assms out by (auto simp: register_busy)
  next
    case (Deregister n)
    then show ?thesis using assms out
      by (auto simp: torn_down_def handler_defs detached_def list_all_iff
            split: if_splits option.splits)
  next
    case OwnerClose
    then show ?thesis using td by simp
  next
    case ConnectResolved
    then show ?thesis using assms out
      by (auto simp: torn_down_def handler_defs detached_def list_all_iff
            split: if_splits option.splits)
  next
    case ConnectRejected
    then show ?thesis using td by (simp add: connectCatch_def)
  next
    case (StatusResolved status)
    show ?thesis
    proof (cases rule: statusThen_cases [of status s])
      case (returned N E)
      then show ?thesis using assms out StatusResolved by auto
    next
      case (threw x N E)
      have "count_list E (ECall c Close) = 0" for c
        using statusThen_threw_calls [OF threw, of c Close] assms by simp
      then show ?thesis using threw assms StatusResolved
        by (auto simp: torn_down_def handler_defs detached_def list_all_iff
              split: if_splits option.splits)
    qed
  next
    case StatusRejected
    then show ?thesis using td by (simp add: connectCatch_def)
  next
    case ClientError
    then show ?thesis using td by simp
  next
    case ClientClosed
    then show ?thesis using td by simp
  next
    case (ClientStatus status)
    then show ?thesis using assms out onClientStatus_frame [of status s] by auto
  next
    case (TimerFire t)
    then show ?thesis using assms out by (auto simp: connect_busy split: if_splits)
  qed
  show ?thesis using td dereg every by (simp add: connectCatch_def)
qed

text \<open>The example state, with a client whose \<^verbatim>\<open>close()\<close> raises.\<close>

theorem leaving_connection_tears_down_witness:
  "(connected (demo_state\<lparr>effects := [], closeThrows := (\<lambda>_. True)\<rparr>)
      \<or> connecting (demo_state\<lparr>effects := [], closeThrows := (\<lambda>_. True)\<rparr>))
   \<and> removeAll ''a'' (registeredNodes (demo_state\<lparr>effects := [], closeThrows := (\<lambda>_. True)\<rparr>)) = []
   \<and> \<not> closing (demo_state\<lparr>effects := [], closeThrows := (\<lambda>_. True)\<rparr>)
   \<and> \<not> connected (step ClientClosed (demo_state\<lparr>effects := [], closeThrows := (\<lambda>_. True)\<rparr>))
   \<and> \<not> connecting (step ClientClosed (demo_state\<lparr>effects := [], closeThrows := (\<lambda>_. True)\<rparr>))
   \<and> torn_down (demo_state\<lparr>effects := [], closeThrows := (\<lambda>_. True)\<rparr>)
         (step ClientError (demo_state\<lparr>effects := [], closeThrows := (\<lambda>_. True)\<rparr>))
   \<and> torn_down (demo_state\<lparr>effects := [], closeThrows := (\<lambda>_. True)\<rparr>)
         (step (Deregister ''a'') (demo_state\<lparr>effects := [], closeThrows := (\<lambda>_. True)\<rparr>))
   \<and> torn_down (demo_state\<lparr>effects := [], closeThrows := (\<lambda>_. True)\<rparr>)
         (step ClientClosed (demo_state\<lparr>effects := [], closeThrows := (\<lambda>_. True)\<rparr>))
   \<and> effects (step ClientError (demo_state\<lparr>effects := [], closeThrows := (\<lambda>_. True)\<rparr>))
       = [ECall 0 Close, ENodeStatus ''a'' connected_status,
          ENodeStatus ''a'' disconnected_status, ESetTimeout 0]"
proof -
  let ?s = "demo_state\<lparr>effects := [], closeThrows := (\<lambda>_. True)\<rparr>"
  have a: "connected ?s \<or> connecting ?s" and b: "effects ?s = []"
    and r: "removeAll ''a'' (registeredNodes ?s) = []" and c: "\<not> closing ?s"
    and d: "\<not> connected (step ClientClosed ?s)" "\<not> connecting (step ClientClosed ?s)"
    and e: "effects (step ClientError ?s)
       = [ECall 0 Close, ENodeStatus ''a'' connected_status,
          ENodeStatus ''a'' disconnected_status, ESetTimeout 0]"
    by (simp_all add: demo_state_eq demo_init_def init_def handler_defs)
  show ?thesis
    using leaving_connection_tears_down [OF a b, of "''a''" ClientClosed] a r c d e by simp
qed

section \<open>Deregistration\<close>

text \<open>
  C8, as the claim states it, fails: while the node is closing, \<^verbatim>\<open>deregister\<close> is
  not free of side effects, it removes the sender from the registry before it tests the
  flag.
\<close>

theorem deregister_while_closing_removes:
  "closing (run [Register ''a'', OwnerClose] demo_init)
   \<and> registeredNodes (run [Register ''a'', OwnerClose] demo_init) = [''a'']
   \<and> registeredNodes (deregister ''a'' (emit EDone) (run [Register ''a'', OwnerClose] demo_init)) = []"
  by (simp add: run_def demo_init_def init_def handler_defs)

text \<open>
  C8, amended. \<^verbatim>\<open>deregister\<close> always removes the sender and calls \<^verbatim>\<open>done\<close> exactly
  once, as its last action. If the node is not closing, the registry is now empty and
  the node is connected or connecting, it disconnects once before that: the client, if
  any, is closed once and the node is left with no client. In every other case, closing
  included, nothing else changes.
\<close>

theorem deregister_completes_once:
  "let s0 = s\<lparr>effects := []\<rparr>;
       rest = removeAll nid (registeredNodes s);
       s' = deregister nid (emit EDone) s0
   in count_list (effects s') EDone = 1
      \<and> registeredNodes s' = rest
      \<and> (if \<not> closing s \<and> rest = [] \<and> (connected s \<or> connecting s)
         then effects s' = (case client s of None \<Rightarrow> [] | Some c \<Rightarrow> [ECall c Close]) @ [EDone]
              \<and> \<not> connected s' \<and> \<not> connecting s' \<and> client s' = None
              \<and> platformStatus s' = None
         else s' = s\<lparr>registeredNodes := rest, effects := [EDone]\<rparr>)"
  by (auto simp: handler_defs split: option.splits)

section \<open>After the owner closed the node\<close>

lemma step_while_closing:
  assumes "closing s"
  shows "closing (step e s) \<and> nextTimer (step e s) = nextTimer s
     \<and> set (timers (step e s)) \<subseteq> set (timers s)"
proof (cases e)
  case (StatusResolved status)
  show ?thesis
    by (cases rule: statusThen_cases [of status s])
       (use assms StatusResolved in \<open>auto simp: handler_defs\<close>)
next
  case (ClientStatus status)
  then show ?thesis using assms onClientStatus_frame [of status s] by auto
qed (use assms in \<open>auto simp: handler_defs split: option.splits if_splits\<close>)

text \<open>
  C3, as the claim states it, fails: a reconnect timer pending when the owner closes the
  node is not cancelled, and when it fires \<^verbatim>\<open>connect\<close> runs and opens a new client.
\<close>

theorem pending_reconnect_survives_close:
  "timers (run [Register ''a'', ClientError] demo_init) = [0]
   \<and> closing (run [Register ''a'', ClientError, OwnerClose] demo_init)
   \<and> timers (run [Register ''a'', ClientError, OwnerClose] demo_init) = [0]
   \<and> connecting (run [Register ''a'', ClientError, OwnerClose, TimerFire 0] demo_init)
   \<and> ECall 1 Connect
        \<in> set (effects (run [Register ''a'', ClientError, OwnerClose, TimerFire 0] demo_init))"
  by (simp add: run_def demo_init_def init_def handler_defs)

text \<open>
  C3, amended. Once \<^verbatim>\<open>closing\<close> is set it stays set, and no handler schedules a
  reconnect any more: no timer is created and the pending timers only shrink.
\<close>

theorem closing_schedules_nothing:
  assumes "closing s"
  shows "closing (run evs s) \<and> nextTimer (run evs s) = nextTimer s
     \<and> set (timers (run evs s)) \<subseteq> set (timers s)"
  using assms
proof (induction evs arbitrary: s)
  case Nil
  then show ?case by (simp add: run_def)
next
  case (Cons e evs)
  have "closing (step e s)" "nextTimer (step e s) = nextTimer s"
    "set (timers (step e s)) \<subseteq> set (timers s)"
    using step_while_closing [OF Cons.prems] by simp_all
  moreover have "run (e # evs) s = run evs (step e s)"
    by (simp add: run_def)
  ultimately show ?case using Cons.IH [of "step e s"] by auto
qed

theorem closing_schedules_nothing_witness:
  "closing (run [Register ''a'', ConnectResolved, OwnerClose] demo_init)
   \<and> nextTimer (run [Register ''b'', ClientError, ConnectRejected, TimerFire 0]
                  (run [Register ''a'', ConnectResolved, OwnerClose] demo_init))
       = nextTimer (run [Register ''a'', ConnectResolved, OwnerClose] demo_init)
   \<and> timers (run [Register ''b'', ClientError, ConnectRejected, TimerFire 0]
                  (run [Register ''a'', ConnectResolved, OwnerClose] demo_init)) = []"
proof -
  have c: "closing (run [Register ''a'', ConnectResolved, OwnerClose] demo_init)"
    and t: "timers (run [Register ''a'', ConnectResolved, OwnerClose] demo_init) = []"
    by (simp_all add: run_def demo_init_def init_def handler_defs)
  show ?thesis
    using closing_schedules_nothing [OF c, of "[Register ''b'', ClientError, ConnectRejected, TimerFire 0]"] c t
    by simp
qed

section \<open>Registrations and the connection\<close>










section \<open>The client of a connected node\<close>

lemma step_keeps_client:
  assumes "if connected s then client s \<noteq> None else True"
  shows "if connected (step e s) then client (step e s) \<noteq> None else True"
proof (cases e)
  case (StatusResolved status)
  show ?thesis
    by (cases rule: statusThen_cases [of status s])
       (use assms StatusResolved in \<open>auto simp: handler_defs split: option.splits if_splits\<close>)
next
  case (ClientStatus status)
  then show ?thesis using assms onClientStatus_frame [of status s] by (auto split: if_splits)
qed (use assms in \<open>auto simp: handler_defs split: option.splits if_splits\<close>)

lemma run_keeps_client:
  "(if connected s then client s \<noteq> None else True) \<Longrightarrow>
   (if connected (run evs s) then client (run evs s) \<noteq> None else True)"
proof (induction evs arbitrary: s)
  case Nil
  then show ?case by (simp add: run_def)
next
  case (Cons e evs)
  have "run (e # evs) s = run evs (step e s)" by (simp add: run_def)
  then show ?case using Cons.IH [OF step_keeps_client [OF Cons.prems]] by simp
qed

text \<open>
  C10, as the claim states it, fails for the status fetch chained to \<^verbatim>\<open>GET_VOLUME\<close>,
  \<^verbatim>\<open>MUTE\<close>, \<^verbatim>\<open>UNMUTE\<close> and \<^verbatim>\<open>VOLUME\<close>: it reads \<^verbatim>\<open>node.client\<close> when the
  first call is answered and does not test \<^verbatim>\<open>connected\<close>. If the node disconnects in
  between, here on a transport error, the client it reads is \<^verbatim>\<open>null\<close>.
\<close>

theorem chained_status_fetch_without_client:
  "sendPlatformCommandAsync demo_state
       \<lparr>type = ''GET_VOLUME'', app = None, volume = None, time = None\<rparr> None
     = Inr \<lparr>on_client = 0, call = GetVolume, then_getStatus = True\<rparr>
   \<and> platformThen (step ClientError demo_state) = Inl TypeError"
  by (simp add: demo_state_eq demo_init_def init_def sendPlatformCommandAsync_def
        on_node_client_def platformThen_def handler_defs)

text \<open>
  C10, amended. After every sequence of events, a connected node holds a client, and
  \<^verbatim>\<open>launchAsync\<close>, \<^verbatim>\<open>joinSessionAsync\<close> and \<^verbatim>\<open>sendPlatformCommandAsync\<close>, when they
  are called, never read a missing client: each either fails with its own error or makes
  its call on the client.
\<close>

theorem connected_has_client:
  "let s = run evs (init ns ct)
   in (connected s \<longrightarrow> client s \<noteq> None)
      \<and> launchAsync s a \<noteq> Inl TypeError
      \<and> joinSessionAsync s x y \<noteq> Inl TypeError
      \<and> sendPlatformCommandAsync s command r \<noteq> Inl TypeError"
proof -
  have "if connected (run evs (init ns ct)) then client (run evs (init ns ct)) \<noteq> None else True"
    by (rule run_keeps_client) (simp add: init_def)
  then show ?thesis
    by (auto simp: Let_def launchAsync_def joinSessionAsync_def sendPlatformCommandAsync_def
          on_node_client_def split: if_splits option.splits)
qed

theorem connected_has_client_witness:
  "connected (run [Register ''a'', ConnectResolved] (init (\<lambda>_. demo_sender) (\<lambda>_. False)))
   \<and> client (run [Register ''a'', ConnectResolved] (init (\<lambda>_. demo_sender) (\<lambda>_. False))) \<noteq> None
   \<and> launchAsync (run [Register ''a'', ConnectResolved] (init (\<lambda>_. demo_sender) (\<lambda>_. False))) None
        \<noteq> Inl TypeError"
proof -
  have c: "connected (run [Register ''a'', ConnectResolved] (init (\<lambda>_. demo_sender) (\<lambda>_. False)))"
    by (simp add: run_def init_def handler_defs)
  show ?thesis
    using connected_has_client [of "[Register ''a'', ConnectResolved]" "\<lambda>_. demo_sender" "\<lambda>_. False"
        None] c
    by (simp add: Let_def)
qed

end
